theory Spec2Isabelle
  imports Complex_Main
begin

section \<open>The scene graph of momentumengine: data model\<close>

text \<open>
  The embedding follows \<^verbatim>\<open>entity.js\<close>. Entities are JavaScript objects with identity,
  parent back-references and child arrays that alias each other, so they live in an
  explicit store: a reference is a natural number and the store maps references to
  entity records. The numbers of the physics (coordinates, velocities, masses, \<open>delta\<close>)
  are values of \<open>jsnum\<close>: a real number, an infinity or \<open>NaN\<close>, with the arithmetic of
  IEEE doubles but without rounding and overflow. The division by a zero distance in
  \<^verbatim>\<open>_calculateFields\<close> gives an infinity or \<open>NaN\<close> there, which the update carries on with,
  as the code does. Times and counters, which no modelled method can make non-finite, are
  real numbers. The JavaScript call stack is bounded: every recursive method takes the
  remaining stack depth and answers \<open>Inl RangeError\<close> when it is exhausted, as the engine raises
  \<^verbatim>\<open>RangeError: Maximum call stack size exceeded\<close>.
\<close>

type_synonym ref = nat
type_synonym gref = nat
type_synonym hook = nat

datatype jsval = JUndefined | JNull | JBool bool | JNum real | JNaN | JStr string | JObj nat

fun truthy :: "jsval \<Rightarrow> bool" where
  "truthy JUndefined = False"
| "truthy JNull = False"
| "truthy (JBool b) = b"
| "truthy (JNum n) = (n \<noteq> 0)"
| "truthy JNaN = False"
| "truthy (JStr s) = (s \<noteq> [])"
| "truthy (JObj a) = True"

datatype error = TypeError | RangeError

datatype event = Update ref | UpdateHook ref | Render ref | RenderHook ref

definition bindE :: "error + 'a \<Rightarrow> ('a \<Rightarrow> error + 'b) \<Rightarrow> error + 'b" where
  "bindE m f = (case m of Inl e \<Rightarrow> Inl e | Inr v \<Rightarrow> f v)"

subsection \<open>Numbers\<close>

text \<open>
  \<open>Fin x\<close> is the finite number \<open>x\<close>. The operations follow IEEE 754 as JavaScript applies
  it: \<open>NaN\<close> absorbs, an infinity times zero and the difference of two equal infinities are
  \<open>NaN\<close>, a non-zero number divided by zero is an infinity and zero by zero is \<open>NaN\<close>.
  The sign of a zero is not kept. \<open>0\<close>, \<open>1\<close> and the numerals are the finite numbers.
\<close>

datatype jsnum = Fin real | PInf | NInf | NaN

fun negate :: "jsnum \<Rightarrow> jsnum" where
  "negate (Fin a) = Fin (- a)"
| "negate PInf = NInf"
| "negate NInf = PInf"
| "negate NaN = NaN"

instantiation jsnum :: "{zero, one, plus, minus, times, inverse}"
begin

definition zero_jsnum :: jsnum where
  "zero_jsnum = Fin 0"

definition one_jsnum :: jsnum where
  "one_jsnum = Fin 1"

fun plus_jsnum :: "jsnum \<Rightarrow> jsnum \<Rightarrow> jsnum" where
  "plus_jsnum NaN y = NaN"
| "plus_jsnum x NaN = NaN"
| "plus_jsnum (Fin a) (Fin b) = Fin (a + b)"
| "plus_jsnum (Fin a) y = y"
| "plus_jsnum x (Fin b) = x"
| "plus_jsnum PInf PInf = PInf"
| "plus_jsnum NInf NInf = NInf"
| "plus_jsnum PInf NInf = NaN"
| "plus_jsnum NInf PInf = NaN"

definition minus_jsnum :: "jsnum \<Rightarrow> jsnum \<Rightarrow> jsnum" where
  "minus_jsnum x y = x + negate y"

fun times_jsnum :: "jsnum \<Rightarrow> jsnum \<Rightarrow> jsnum" where
  "times_jsnum NaN y = NaN"
| "times_jsnum x NaN = NaN"
| "times_jsnum (Fin a) (Fin b) = Fin (a * b)"
| "times_jsnum (Fin a) y = (if a = 0 then NaN else if 0 < a then y else negate y)"
| "times_jsnum x (Fin b) = (if b = 0 then NaN else if 0 < b then x else negate x)"
| "times_jsnum PInf y = y"
| "times_jsnum NInf y = negate y"

fun divide_jsnum :: "jsnum \<Rightarrow> jsnum \<Rightarrow> jsnum" where
  "divide_jsnum NaN y = NaN"
| "divide_jsnum x NaN = NaN"
| "divide_jsnum (Fin a) (Fin b) =
     (if b \<noteq> 0 then Fin (a / b) else if a = 0 then NaN else if 0 < a then PInf else NInf)"
| "divide_jsnum (Fin a) y = Fin 0"
| "divide_jsnum x (Fin b) = (if 0 \<le> b then x else negate x)"
| "divide_jsnum x y = NaN"

definition inverse_jsnum :: "jsnum \<Rightarrow> jsnum" where
  "inverse_jsnum x = divide (Fin 1) x"

instance ..

end

instance jsnum :: numeral
proof
  fix a b c :: jsnum
  show "a + b + c = a + (b + c)"
    by (cases a; cases b; cases c) simp_all
qed

text \<open>\<^verbatim>\<open>Math.pow(x, 1.5)\<close> and \<^verbatim>\<open>Math.sqrt(x)\<close>.\<close>

fun pow_1_5 :: "jsnum \<Rightarrow> jsnum" where
  "pow_1_5 (Fin a) = (if a < 0 then NaN else Fin (a powr 1.5))"
| "pow_1_5 PInf = PInf"
| "pow_1_5 NInf = PInf"
| "pow_1_5 NaN = NaN"


fun isFinite :: "jsnum \<Rightarrow> bool" where
  "isFinite (Fin a) = True"
| "isFinite x = False"

subsection \<open>Vectors and entities\<close>

text \<open>
  Modelled from the spec: Vector2D (\<^verbatim>\<open>vector2d.js\<close> is imported by \<^verbatim>\<open>entity.js\<close> but is not
  among the sources). The spec gives \<open>{x, y}\<close> with \<open>add\<close> and \<open>multiply\<close> that change the
  receiver and return it, a pure \<open>dot\<close>, and \<open>clone\<close> giving an independent copy. Every
  vector an entity holds is allocated by its constructor or is a fresh clone, so a vector
  is a value here and \<open>clone\<close> is the identity.
\<close>

record vector2d =
  vx :: jsnum
  vy :: jsnum

definition Vector2D :: "jsnum \<Rightarrow> jsnum \<Rightarrow> vector2d" where
  "Vector2D a b = \<lparr>vx = a, vy = b\<rparr>"

definition add :: "vector2d \<Rightarrow> vector2d \<Rightarrow> vector2d" where
  "add u v = \<lparr>vx = vx u + vx v, vy = vy u + vy v\<rparr>"

definition multiply :: "vector2d \<Rightarrow> jsnum \<Rightarrow> vector2d" where
  "multiply u k = \<lparr>vx = vx u * k, vy = vy u * k\<rparr>"

definition dot :: "vector2d \<Rightarrow> vector2d \<Rightarrow> jsnum" where
  "dot u v = vx u * vx v + vy u * vy v"

text \<open>
  The fields of \<^verbatim>\<open>Entity\<close> that the modelled methods read or write (\<open>fields_list\<close> is the array \<^verbatim>\<open>fields\<close>). \<open>timeToLive\<close>,
  \<open>update\<close>, \<open>render\<close> and \<open>mass\<close> are not set by the constructor: \<open>None\<close> is
  JavaScript's \<open>undefined\<close>. A hook is a function value, named here by a number and
  interpreted by the hook tables passed to the traversals. \<open>game\<close> and \<open>parent\<close> hold
  \<open>null\<close> (\<open>None\<close>) or a reference.
\<close>

record entity =
  pos :: vector2d
  velocity :: vector2d
  acceleration :: vector2d
  display :: jsval
  fields_list :: "ref list"
  children :: "ref list"
  relativePos :: vector2d
  lastRelativePosCalculated :: real
  game :: "gref option"
  parent :: "ref option"
  creationTime :: real
  timeToLive :: "real option"
  update :: "hook option"
  render :: "hook option"
  mass :: "jsnum option"

text \<open>
  Modelled from the spec: the scene context (the game object is not among the sources).
  The spec gives it a frame counter and a render-count statistic.
\<close>

record game_ctx =
  frameCounter :: real
  lastFrameTotalRenders :: real

text \<open>
  The world: the entity store, the scene contexts, the wall clock read by \<^verbatim>\<open>Date.now()\<close>
  and the next unused reference.
\<close>

record world =
  ents :: "ref \<Rightarrow> entity"
  games :: "gref \<Rightarrow> game_ctx"
  clock :: real
  nxt :: ref

definition upd :: "ref \<Rightarrow> (entity \<Rightarrow> entity) \<Rightarrow> world \<Rightarrow> world" where
  "upd r f w = w\<lparr>ents := (ents w)(r := f (ents w r))\<rparr>"

subsection \<open>Constructor\<close>

definition newEntity :: "jsnum \<Rightarrow> jsnum \<Rightarrow> world \<Rightarrow> ref \<times> world" where
  "newEntity x0 y0 w =
     (let r = nxt w in
      (r, w\<lparr>ents := (ents w)(r :=
             \<lparr>pos = Vector2D x0 y0,
              velocity = Vector2D 0 0,
              acceleration = Vector2D 0 0,
              display = JBool True,
              fields_list = [],
              children = [],
              relativePos = Vector2D x0 y0,
              lastRelativePosCalculated = 0,
              game = None,
              parent = None,
              creationTime = clock w,
              timeToLive = None,
              update = None,
              render = None,
              mass = None\<rparr>),
            nxt := Suc r\<rparr>))"

subsection \<open>Relative position: \<^verbatim>\<open>_calculateRelativePos\<close> and the getters\<close>

text \<open>
  \<^verbatim>\<open>_calculateRelativePos\<close> returns the object \<^verbatim>\<open>this._relativePos\<close>; the getters read one
  coordinate of it at once, so the model returns the vector stored when the method
  returns. In the recomputing branch \<^verbatim>\<open>this.pos.x\<close> is read before the parent's getter
  is called, and the stamp is written last.
\<close>

fun calculateRelativePos :: "nat \<Rightarrow> ref \<Rightarrow> world \<Rightarrow> error + vector2d \<times> world"
  and relativeLeft :: "nat \<Rightarrow> ref \<Rightarrow> world \<Rightarrow> error + jsnum \<times> world"
  and relativeTop :: "nat \<Rightarrow> ref \<Rightarrow> world \<Rightarrow> error + jsnum \<times> world"
where
  "calculateRelativePos 0 r w = Inl RangeError"
| "calculateRelativePos (Suc n) r w =
     (case game (ents w r) of
        None \<Rightarrow> Inr (relativePos (ents w r), w)
      | Some g \<Rightarrow>
          if lastRelativePosCalculated (ents w r) < frameCounter (games w g) then
            bindE
              (case parent (ents w r) of
                 Some p \<Rightarrow>
                   (let px = vx (pos (ents w r)) in
                    bindE (relativeLeft n p w) (\<lambda>(pl, w1).
                      let w2 = upd r (\<lambda>e. e\<lparr>relativePos := (relativePos e)\<lparr>vx := px + pl\<rparr>\<rparr>) w1;
                          py = vy (pos (ents w2 r)) in
                      bindE (relativeTop n p w2) (\<lambda>(pt, w3).
                        Inr (upd r (\<lambda>e. e\<lparr>relativePos := (relativePos e)\<lparr>vy := py + pt\<rparr>\<rparr>) w3))))
               | None \<Rightarrow>
                   (let w1 = upd r (\<lambda>e. e\<lparr>relativePos := (relativePos e)\<lparr>vx := vx (pos e)\<rparr>\<rparr>) w
                    in Inr (upd r (\<lambda>e. e\<lparr>relativePos := (relativePos e)\<lparr>vy := vy (pos e)\<rparr>\<rparr>) w1)))
              (\<lambda>w4.
                 (case game (ents w4 r) of
                    None \<Rightarrow> Inl TypeError
                  | Some g' \<Rightarrow>
                      let w5 = upd r (\<lambda>e. e\<lparr>lastRelativePosCalculated := frameCounter (games w4 g')\<rparr>) w4
                      in Inr (relativePos (ents w5 r), w5)))
          else Inr (relativePos (ents w r), w))"
| "relativeLeft n r w = bindE (calculateRelativePos n r w) (\<lambda>(v, w'). Inr (vx v, w'))"
| "relativeTop n r w = bindE (calculateRelativePos n r w) (\<lambda>(v, w'). Inr (vy v, w'))"

subsection \<open>The accessors \<^verbatim>\<open>left\<close> and \<open>top\<close>\<close>

definition left :: "ref \<Rightarrow> world \<Rightarrow> jsnum" where
  "left r w = vx (pos (ents w r))"




text \<open>\<^verbatim>\<open>setVelocity(x, y)\<close> with two numbers (the branch that writes the entity's own vector).\<close>

definition setVelocity :: "jsnum \<Rightarrow> jsnum \<Rightarrow> ref \<Rightarrow> world \<Rightarrow> world" where
  "setVelocity a b r w = upd r (\<lambda>e. e\<lparr>velocity := (velocity e)\<lparr>vx := a, vy := b\<rparr>\<rparr>) w"

subsection \<open>\<^verbatim>\<open>Array.prototype.forEach\<close>\<close>

text \<open>
  \<^verbatim>\<open>forEach\<close> reads the length once, then visits the indices below it in order and skips
  an index that the array, as it is at that moment, no longer has. The array is read from
  the current state at every index, since the callback may change it (a child that
  detaches itself shortens its parent's array during the walk).
\<close>

fun forEach_from ::
  "(ref \<Rightarrow> 's \<Rightarrow> error + 's) \<Rightarrow> ('s \<Rightarrow> ref list) \<Rightarrow> nat \<Rightarrow> nat \<Rightarrow> 's \<Rightarrow> error + 's"
where
  "forEach_from cb arr k 0 s = Inr s"
| "forEach_from cb arr k (Suc m) s =
     (if k < length (arr s)
      then bindE (cb (arr s ! k) s) (forEach_from cb arr (Suc k) m)
      else forEach_from cb arr (Suc k) m s)"

definition forEach :: "(ref \<Rightarrow> 's \<Rightarrow> error + 's) \<Rightarrow> ('s \<Rightarrow> ref list) \<Rightarrow> 's \<Rightarrow> error + 's" where
  "forEach cb arr s = forEach_from cb arr 0 (length (arr s)) s"

subsection \<open>Child lifecycle\<close>

primrec updateGame :: "nat \<Rightarrow> gref option \<Rightarrow> ref \<Rightarrow> world \<Rightarrow> error + world" where
  "updateGame 0 g r w = Inl RangeError"
| "updateGame (Suc n) g r w =
     forEach (updateGame n g) (\<lambda>s. children (ents s r)) (upd r (\<lambda>e. e\<lparr>game := g\<rparr>) w)"

definition createChildEntity :: "nat \<Rightarrow> ref \<Rightarrow> world \<Rightarrow> error + ref \<times> world" where
  "createChildEntity n p w =
     (let (child, w1) = newEntity 0 0 w in
      bindE (updateGame n (game (ents w1 p)) child w1) (\<lambda>w2.
        let w3 = upd child (\<lambda>e. e\<lparr>parent := Some p\<rparr>) w2;
            w4 = upd p (\<lambda>e. e\<lparr>children := children e @ [child]\<rparr>) w3
        in Inr (child, w4)))"

definition addChildEntity :: "nat \<Rightarrow> ref \<Rightarrow> ref \<Rightarrow> world \<Rightarrow> error + ref \<times> world" where
  "addChildEntity n p child w =
     bindE (updateGame n (game (ents w p)) child w) (\<lambda>w2.
       let w3 = upd child (\<lambda>e. e\<lparr>parent := Some p\<rparr>) w2;
           w4 = upd p (\<lambda>e. e\<lparr>children := children e @ [child]\<rparr>) w3
       in Inr (child, w4))"

text \<open>
  \<^verbatim>\<open>detachChildEntity\<close>: the loop looks for the first index holding the child,
  \<^verbatim>\<open>splice(i, 1)\<close> removes that element, and the result says whether one was found.
\<close>

fun firstIndex :: "ref list \<Rightarrow> ref \<Rightarrow> nat option" where
  "firstIndex [] c = None"
| "firstIndex (a # as) c = (if a = c then Some 0 else map_option Suc (firstIndex as c))"

definition splice1 :: "nat \<Rightarrow> 'a list \<Rightarrow> 'a list" where
  "splice1 i xs = take i xs @ drop (Suc i) xs"

definition detachChildEntity :: "ref \<Rightarrow> ref \<Rightarrow> world \<Rightarrow> bool \<times> world" where
  "detachChildEntity p child w =
     (case firstIndex (children (ents w p)) child of
        Some i \<Rightarrow> (True, upd p (\<lambda>e. e\<lparr>children := splice1 i (children e)\<rparr>) w)
      | None \<Rightarrow> (False, w))"

subsection \<open>Field forces: \<^verbatim>\<open>_calculateFields\<close>\<close>

text \<open>
  The loop body does not write the \<^verbatim>\<open>fields\<close> array, so the loop walks the array as it is
  when the method starts. The four getters are called in the order of the source. A field
  without \<open>mass\<close> has the mass \<open>undefined\<close>, which the division turns into \<open>NaN\<close>; a field
  at distance zero gives the force \<open>mass / 0\<close> and, multiplied into the zero vector, \<open>NaN\<close>.
\<close>

fun fieldsLoop ::
  "nat \<Rightarrow> jsnum \<Rightarrow> ref \<Rightarrow> ref list \<Rightarrow> vector2d \<Rightarrow> world \<Rightarrow> error + vector2d \<times> world"
where
  "fieldsLoop n delta r [] acc w = Inr (acc, w)"
| "fieldsLoop n delta r (f # fs) acc w =
     bindE (relativeLeft n f w) (\<lambda>(fl, w1).
     bindE (relativeLeft n r w1) (\<lambda>(tl, w2).
     bindE (relativeTop n f w2) (\<lambda>(ft, w3).
     bindE (relativeTop n r w3) (\<lambda>(tt, w4).
       let vector = Vector2D (fl - tl) (ft - tt);
           force = (case mass (ents w4 f) of None \<Rightarrow> NaN | Some m \<Rightarrow> m)
                     / pow_1_5 (dot vector vector)
       in fieldsLoop n delta r fs (add acc (multiply (multiply vector force) delta)) w4))))"

definition calculateFields :: "nat \<Rightarrow> jsnum \<Rightarrow> ref \<Rightarrow> world \<Rightarrow> error + vector2d \<times> world" where
  "calculateFields n delta r w =
     bindE (fieldsLoop n delta r (fields_list (ents w r)) (Vector2D 0 0) w) (\<lambda>(acc, w').
       Inr (add (acceleration (ents w' r)) acc, w'))"

subsection \<open>The update traversal: \<^verbatim>\<open>_updateEntity\<close>\<close>

text \<open>
  The three blocks of \<^verbatim>\<open>_updateEntity\<close> in the order of the source: the expiry check, the
  integration step, then the hook and the walk over the children. \<^verbatim>\<open>Date.now()\<close> is the
  clock of the world. The hook is user code: \<open>U h delta r w\<close> is what the hook \<open>h\<close> called
  on the entity \<open>r\<close> returns and the world it leaves; a hook may change anything in the
  world, but a hook that throws or that itself calls the traversal is not modelled. The
  traversal keeps a log of the calls it makes (\<open>Update r\<close> for \<^verbatim>\<open>_updateEntity\<close> on \<open>r\<close>,
  \<open>UpdateHook r\<close> for the call of its hook, and likewise for rendering), beside the world
  and out of the hooks' reach. An error ends the whole traversal, as an exception does.
\<close>

definition expire :: "ref \<Rightarrow> world \<Rightarrow> error + world" where
  "expire r w =
     (case timeToLive (ents w r) of
        None \<Rightarrow> Inr w
      | Some t \<Rightarrow>
          if t \<noteq> 0 then
            (if clock w - creationTime (ents w r) > t then
               (case parent (ents w r) of
                  None \<Rightarrow> Inl TypeError
                | Some p \<Rightarrow> Inr (snd (detachChildEntity p r w)))
             else Inr w)
          else Inr w)"

definition integrate :: "nat \<Rightarrow> jsnum \<Rightarrow> ref \<Rightarrow> world \<Rightarrow> error + world" where
  "integrate n delta r w =
     (if vx (velocity (ents w r)) \<noteq> 0 \<or> vy (velocity (ents w r)) \<noteq> 0 then
        bindE (calculateFields n delta r w) (\<lambda>(a, w1).
          let w2 = upd r (\<lambda>e. e\<lparr>velocity := add (velocity e) a\<rparr>) w1;
              w3 = upd r (\<lambda>e. e\<lparr>pos := (pos e)\<lparr>vx := vx (pos e) + vx (velocity e) * delta\<rparr>\<rparr>) w2;
              w4 = upd r (\<lambda>e. e\<lparr>pos := (pos e)\<lparr>vy := vy (pos e) + vy (velocity e) * delta\<rparr>\<rparr>) w3
          in Inr w4)
      else Inr w)"

type_synonym update_hooks = "hook \<Rightarrow> jsnum \<Rightarrow> ref \<Rightarrow> world \<Rightarrow> jsval \<times> world"
type_synonym render_hooks = "hook \<Rightarrow> ref \<Rightarrow> world \<Rightarrow> jsval \<times> world"

text \<open>\<open>tickSelf\<close>: the node's own step, the first two blocks.\<close>

definition tickSelf :: "nat \<Rightarrow> jsnum \<Rightarrow> ref \<Rightarrow> world \<Rightarrow> error + world" where
  "tickSelf n delta r w = bindE (expire r w) (integrate n delta r)"

text \<open>
  \<^verbatim>\<open>this.update && this.update(delta)\<close>: the value, the world after the call and the call
  made, if any.
\<close>

definition callUpdate :: "update_hooks \<Rightarrow> jsnum \<Rightarrow> ref \<Rightarrow> world \<Rightarrow> jsval \<times> world \<times> event list" where
  "callUpdate U delta r w =
     (case update (ents w r) of
        None \<Rightarrow> (JUndefined, w, [])
      | Some h \<Rightarrow> (let (v, w') = U h delta r w in (v, w', [UpdateHook r])))"

primrec updateEntity ::
  "nat \<Rightarrow> update_hooks \<Rightarrow> jsnum \<Rightarrow> ref \<Rightarrow> world \<times> event list \<Rightarrow> error + world \<times> event list"
where
  "updateEntity 0 U delta r s = Inl RangeError"
| "updateEntity (Suc n) U delta r s =
     bindE (tickSelf n delta r (fst s)) (\<lambda>w2.
       let (updated, w3, ev) = callUpdate U delta r w2;
           lg = snd s @ Update r # ev
       in if truthy updated \<or> updated = JUndefined \<or> update (ents w3 r) = None
          then forEach (updateEntity n U delta) (\<lambda>s'. children (ents (fst s') r)) (w3, lg)
          else Inr (w3, lg))"

subsection \<open>The render traversal: \<^verbatim>\<open>_renderEntity\<close>\<close>

text \<open>
  \<^verbatim>\<open>this.display && this.render && this.render()\<close>: the value, the world after the call and
  the call made, if any. A falsy \<open>display\<close> is itself the value.
\<close>

definition callRender :: "render_hooks \<Rightarrow> ref \<Rightarrow> world \<Rightarrow> jsval \<times> world \<times> event list" where
  "callRender R r w =
     (if truthy (display (ents w r)) then
        (case render (ents w r) of
           None \<Rightarrow> (JUndefined, w, [])
         | Some h \<Rightarrow> (let (v, w') = R h r w in (v, w', [RenderHook r])))
      else (display (ents w r), w, []))"

text \<open>\<^verbatim>\<open>this._game._lastFrameTotalRenders++\<close>, a \<^verbatim>\<open>TypeError\<close> when \<^verbatim>\<open>this._game\<close> is \<open>null\<close>.\<close>

definition countRender :: "ref \<Rightarrow> world \<Rightarrow> error + world" where
  "countRender r w =
     (case game (ents w r) of
        None \<Rightarrow> Inl TypeError
      | Some g \<Rightarrow>
          Inr (w\<lparr>games := (games w)(g := (games w g)
                 \<lparr>lastFrameTotalRenders := lastFrameTotalRenders (games w g) + 1\<rparr>)\<rparr>))"

primrec renderEntity ::
  "nat \<Rightarrow> render_hooks \<Rightarrow> ref \<Rightarrow> world \<times> event list \<Rightarrow> error + world \<times> event list"
where
  "renderEntity 0 R r s = Inl RangeError"
| "renderEntity (Suc n) R r s =
     (let (rendered, w1, ev) = callRender R r (fst s);
          lg = snd s @ Render r # ev
      in bindE (if truthy rendered then countRender r w1 else Inr w1) (\<lambda>w2.
           if truthy rendered \<or> rendered = JUndefined \<or> render (ents w2 r) = None
           then forEach (renderEntity n R) (\<lambda>s'. children (ents (fst s') r)) (w2, lg)
           else Inr (w2, lg)))"

section \<open>Predicates and sample worlds used in the statements\<close>

text \<open>
  \<open>stale w r\<close>: the condition under which \<^verbatim>\<open>_calculateRelativePos\<close> recomputes, a scene
  context and a stamp older than its frame counter. \<open>cache_only w w'\<close>: the worlds differ
  at most in the cached relative positions and their stamps.
\<close>

definition stale :: "world \<Rightarrow> ref \<Rightarrow> bool" where
  "stale w r =
     (case game (ents w r) of
        None \<Rightarrow> False
      | Some g \<Rightarrow> lastRelativePosCalculated (ents w r) < frameCounter (games w g))"

definition cache_only :: "world \<Rightarrow> world \<Rightarrow> bool" where
  "cache_only w w' \<longleftrightarrow>
     games w' = games w \<and> clock w' = clock w \<and> nxt w' = nxt w \<and>
     (\<forall>q. ents w' q = (ents w q)\<lparr>relativePos := relativePos (ents w' q),
              lastRelativePosCalculated := lastRelativePosCalculated (ents w' q)\<rparr>)"

text \<open>
  The empty world: nothing allocated, the clock at 0, every scene context at frame 0.
  An unallocated slot holds what \<^verbatim>\<open>new Entity()\<close> would build.
\<close>

definition unallocated :: entity where
  "unallocated =
     \<lparr>pos = Vector2D 0 0, velocity = Vector2D 0 0, acceleration = Vector2D 0 0,
      display = JBool True, fields_list = [], children = [], relativePos = Vector2D 0 0,
      lastRelativePosCalculated = 0, game = None, parent = None, creationTime = 0,
      timeToLive = None, update = None, render = None, mass = None\<rparr>"

definition emptyWorld :: world where
  "emptyWorld =
     \<lparr>ents = (\<lambda>_. unallocated),
      games = (\<lambda>_. \<lparr>frameCounter = 0, lastFrameTotalRenders = 0\<rparr>),
      clock = 0, nxt = 0\<rparr>"

definition noUpdateHooks :: update_hooks where
  "noUpdateHooks h delta r w = (JUndefined, w)"

definition noRenderHooks :: render_hooks where
  "noRenderHooks h r w = (JUndefined, w)"

text \<open>
  A free entity set in motion: \<^verbatim>\<open>new Entity(0, 0)\<close> in the empty world, then
  \<^verbatim>\<open>setVelocity(1, 0)\<close>. \<open>drifted\<close> is the world one tick of 5 time units later.
\<close>

definition launched :: world where
  "launched = setVelocity 1 0 0 (snd (newEntity 0 0 emptyWorld))"

definition drifted :: world where
  "drifted = upd 0 (\<lambda>e. e\<lparr>pos := Vector2D 5 0\<rparr>) launched"

text \<open>
  An entity on a scene: created at (0, 0), attached to the scene context 0, which is at
  frame 1 (\<open>staged\<close>); after a first read of its relative position (\<open>warmed\<close>); after
  \<^verbatim>\<open>setVelocity(1, 0)\<close> and one tick of 5 time units within the same frame (\<open>coasted\<close>);
  with a child created under it (\<open>nursery\<close>); and once the scene has reached frame 2
  (\<open>nextFrame\<close>).
\<close>

definition staged :: world where
  "staged = (upd 0 (\<lambda>e. e\<lparr>game := Some 0\<rparr>) (snd (newEntity 0 0 emptyWorld)))
              \<lparr>games := (\<lambda>_. \<lparr>frameCounter = 1, lastFrameTotalRenders = 0\<rparr>)\<rparr>"

definition warmed :: world where
  "warmed = upd 0 (\<lambda>e. e\<lparr>lastRelativePosCalculated := 1\<rparr>) staged"

definition coasted :: world where
  "coasted = upd 0 (\<lambda>e. e\<lparr>velocity := Vector2D 1 0, pos := Vector2D 5 0\<rparr>) warmed"

definition nursery :: world where
  "nursery = upd 0 (\<lambda>e. e\<lparr>children := [1]\<rparr>)
               (upd 1 (\<lambda>e. e\<lparr>parent := Some 0\<rparr>)
                  (upd 1 (\<lambda>e. e\<lparr>game := Some 0\<rparr>) (snd (newEntity 0 0 coasted))))"

definition nextFrame :: world where
  "nextFrame = nursery\<lparr>games := (\<lambda>_. \<lparr>frameCounter = 2, lastFrameTotalRenders = 0\<rparr>)\<rparr>"

text \<open>
  Sample hooks and worlds for the traversals. \<open>pausingHooks\<close>: an update hook that answers
  \<open>false\<close> while the clock is at 0 and \<open>true\<close> afterwards. \<open>alwaysDrawn\<close>: a render hook
  that answers \<open>true\<close>. \<open>paused\<close>: the parent of \<open>nursery\<close> with an update hook;
  \<open>ticked\<close>, \<open>resumed\<close>, \<open>ticked2\<close>: after one tick, after the clock moved on, after the
  next tick. \<open>hidden\<close>: the parent of \<open>nursery\<close> with \<open>display = false\<close>; \<open>veiled\<close>: the
  same with a render hook. \<open>drawn\<close> and \<open>sketch\<close>: a childless entity with a render hook,
  on a scene and without one.
\<close>

definition pausingHooks :: update_hooks where
  "pausingHooks h delta r w = (JBool (0 < clock w), w)"

definition alwaysDrawn :: render_hooks where
  "alwaysDrawn h r w = (JBool True, w)"

definition paused :: world where
  "paused = upd 0 (\<lambda>e. e\<lparr>update := Some 0\<rparr>) nursery"

definition hidden :: world where
  "hidden = upd 0 (\<lambda>e. e\<lparr>display := JBool False\<rparr>) nursery"

definition veiled :: world where
  "veiled = upd 0 (\<lambda>e. e\<lparr>render := Some 0\<rparr>) hidden"

definition drawn :: world where
  "drawn = upd 0 (\<lambda>e. e\<lparr>render := Some 0\<rparr>) coasted"

definition sketch :: world where
  "sketch = upd 0 (\<lambda>e. e\<lparr>render := Some 0\<rparr>) launched"

definition ticked :: world where
  "ticked = upd 0 (\<lambda>e. e\<lparr>pos := Vector2D 6 0\<rparr>) paused"

definition resumed :: world where
  "resumed = ticked\<lparr>clock := 1\<rparr>"

definition ticked2 :: world where
  "ticked2 = upd 0 (\<lambda>e. e\<lparr>pos := Vector2D 7 0\<rparr>) resumed"


text \<open>
  An entity at (0, 0) at rest, subject to one field of mass 1 at (1, 0), neither on a
  scene (\<open>orbit\<close>); the same after \<^verbatim>\<open>setVelocity(0, 1)\<close> (\<open>kicked\<close>). \<open>orphanExpired\<close>: an
  entity without a parent, created at time 0 with \<open>timeToLive = 1\<close>, at time 2.
\<close>

definition orbit :: world where
  "orbit = upd 0 (\<lambda>e. e\<lparr>fields_list := [1]\<rparr>)
             (upd 1 (\<lambda>e. e\<lparr>mass := Some 1\<rparr>)
                (snd (newEntity 1 0 (snd (newEntity 0 0 emptyWorld)))))"

definition kicked :: world where
  "kicked = setVelocity 0 1 0 orbit"

definition orphanExpired :: world where
  "orphanExpired = (upd 0 (\<lambda>e. e\<lparr>timeToLive := Some 1\<rparr>) (snd (newEntity 0 0 emptyWorld)))\<lparr>clock := 2\<rparr>"

text \<open>
  \<open>motion_only w w'\<close>: the worlds differ at most in positions, velocities and the cached
  relative positions. \<open>mortal\<close>: the child of \<open>nursery\<close>, created and attached at time 0,
  with \<open>timeToLive = 10\<close>, at time 10; \<open>overdue\<close>: the same at time 11.
\<close>

definition motion_only :: "world \<Rightarrow> world \<Rightarrow> bool" where
  "motion_only w w' \<longleftrightarrow>
     games w' = games w \<and> clock w' = clock w \<and> nxt w' = nxt w \<and>
     (\<forall>q. ents w' q = (ents w q)\<lparr>pos := pos (ents w' q), velocity := velocity (ents w' q),
              relativePos := relativePos (ents w' q),
              lastRelativePosCalculated := lastRelativePosCalculated (ents w' q)\<rparr>)"



text \<open>
  The parent/child structure: \<open>edges w\<close> relates a parent to each entity in its children
  array. \<open>tree_shaped w\<close>: no entity is in the children of two parents, and the relation
  has no cycle. \<open>trio\<close>: three entities and no attachment; \<open>adopted\<close>: entity 2 added to
  entity 0; \<open>shared\<close>: entity 2 then added to entity 1 as well; \<open>looped\<close>: entity 0 added
  to itself.
\<close>

definition edges :: "world \<Rightarrow> (ref \<times> ref) set" where
  "edges w = {(p, c). c \<in> set (children (ents w p))}"

definition tree_shaped :: "world \<Rightarrow> bool" where
  "tree_shaped w \<longleftrightarrow>
     (\<forall>p q c. c \<in> set (children (ents w p)) \<and> c \<in> set (children (ents w q)) \<longrightarrow> p = q)
     \<and> acyclic (edges w)"

definition trio :: world where
  "trio = snd (newEntity 0 0 (snd (newEntity 0 0 (snd (newEntity 0 0 emptyWorld)))))"

definition adopted :: world where
  "adopted = upd 0 (\<lambda>e. e\<lparr>children := children e @ [2]\<rparr>)
               (upd 2 (\<lambda>e. e\<lparr>parent := Some 0\<rparr>) (upd 2 (\<lambda>e. e\<lparr>game := None\<rparr>) trio))"

definition shared :: world where
  "shared = upd 1 (\<lambda>e. e\<lparr>children := children e @ [2]\<rparr>)
               (upd 2 (\<lambda>e. e\<lparr>parent := Some 1\<rparr>) (upd 2 (\<lambda>e. e\<lparr>game := None\<rparr>) adopted))"

definition looped :: world where
  "looped = upd 0 (\<lambda>e. e\<lparr>children := children e @ [0]\<rparr>)
               (upd 0 (\<lambda>e. e\<lparr>parent := Some 0\<rparr>) (upd 0 (\<lambda>e. e\<lparr>game := None\<rparr>) trio))"

text \<open>
  \<open>quittingHooks\<close>: an update hook that removes itself from its entity and answers
  \<open>false\<close>; \<open>retired\<close>: the world it leaves when called on the parent of \<open>ticked\<close>.
  \<open>colocated\<close>: the moving entity of \<open>kicked\<close> with its field moved onto it, at distance
  zero, and made its child; \<open>seized\<close>: the same after one tick.
\<close>

definition quittingHooks :: update_hooks where
  "quittingHooks h delta r w = (JBool False, upd r (\<lambda>e. e\<lparr>update := None\<rparr>) w)"

definition retired :: world where
  "retired = upd 0 (\<lambda>e. e\<lparr>update := None\<rparr>) ticked"

definition colocated :: world where
  "colocated = upd 0 (\<lambda>e. e\<lparr>children := [1]\<rparr>)
                 (upd 1 (\<lambda>e. e\<lparr>pos := Vector2D 0 0, relativePos := Vector2D 0 0,
                                parent := Some 0\<rparr>) kicked)"

definition seized :: world where
  "seized = upd 0 (\<lambda>e. e\<lparr>velocity := Vector2D NaN NaN, pos := Vector2D NaN NaN\<rparr>) colocated"

section \<open>Basic facts\<close>

lemma jsnum_zero [simp]: "(0::jsnum) = Fin 0"
  by (rule zero_jsnum_def)

lemma jsnum_one [simp]: "(1::jsnum) = Fin 1"
  by (rule one_jsnum_def)

lemma numeral_jsnum [simp]: "(numeral k :: jsnum) = Fin (numeral k)"
proof (induction k)
  case One
  show ?case by (simp only: numeral_One one_jsnum_def)
next
  case (Bit0 k)
  have "(numeral (num.Bit0 k) :: jsnum) = numeral k + numeral k"
    by (rule numeral_Bit0)
  also have "\<dots> = Fin (numeral k + numeral k)"
    by (simp only: Bit0.IH plus_jsnum.simps)
  also have "(numeral k + numeral k :: real) = numeral (num.Bit0 k)"
    by (rule numeral_Bit0[symmetric])
  finally show ?case .
next
  case (Bit1 k)
  have "(numeral (num.Bit1 k) :: jsnum) = numeral k + numeral k + 1"
    by (rule numeral_Bit1)
  also have "\<dots> = Fin (numeral k + numeral k + 1)"
    by (simp only: Bit1.IH plus_jsnum.simps one_jsnum_def)
  also have "(numeral k + numeral k + 1 :: real) = numeral (num.Bit1 k)"
    by (rule numeral_Bit1[symmetric])
  finally show ?case .
qed

lemma Fin_minus [simp]: "Fin a - Fin b = Fin (a - b)"
  by (simp add: minus_jsnum_def)

lemma Fin_zero_plus [simp]: "Fin 0 + y = y"
  by (cases y) simp_all

lemma isFinite_iff: "isFinite x \<longleftrightarrow> (\<exists>a. x = Fin a)"
  by (cases x) simp_all

lemma bindE_Inl [simp]: "bindE (Inl e) f = Inl e"
  by (simp add: bindE_def)

lemma bindE_Inr [simp]: "bindE (Inr v) f = f v"
  by (simp add: bindE_def)

lemma bindE_eq_Inr: "bindE m f = Inr y \<longleftrightarrow> (\<exists>v. m = Inr v \<and> f v = Inr y)"
  by (cases m) simp_all

lemma ents_upd [simp]: "ents (upd r f w) = (ents w)(r := f (ents w r))"
  and games_upd [simp]: "games (upd r f w) = games w"
  and clock_upd [simp]: "clock (upd r f w) = clock w"
  and nxt_upd [simp]: "nxt (upd r f w) = nxt w"
  by (simp_all add: upd_def)

declare updateEntity.simps(2) [simp del] renderEntity.simps(2) [simp del]

lemma vector2d_update_all [simp]: "v\<lparr>vx := a, vy := b\<rparr> = \<lparr>vx = a, vy = b\<rparr>"
  by (cases v) simp


lemma unallocated_simps [simp]:
  "pos unallocated = \<lparr>vx = 0, vy = 0\<rparr>"
  "velocity unallocated = \<lparr>vx = 0, vy = 0\<rparr>"
  "acceleration unallocated = \<lparr>vx = 0, vy = 0\<rparr>"
  "display unallocated = JBool True"
  "fields_list unallocated = []"
  "children unallocated = []"
  "relativePos unallocated = \<lparr>vx = 0, vy = 0\<rparr>"
  "lastRelativePosCalculated unallocated = 0"
  "game unallocated = None"
  "parent unallocated = None"
  "creationTime unallocated = 0"
  "timeToLive unallocated = None"
  "update unallocated = None"
  "render unallocated = None"
  "mass unallocated = None"
  by (simp_all add: unallocated_def Vector2D_def)

lemma forEach_nil [simp]: "arr s = [] \<Longrightarrow> forEach cb arr s = Inr s"
  by (simp add: forEach_def)

subsection \<open>The sample worlds, entity by entity\<close>

lemma launched_simps [simp]:
  "ents launched 0 = unallocated\<lparr>velocity := \<lparr>vx = 1, vy = 0\<rparr>\<rparr>"
  "games launched = games emptyWorld" "clock launched = 0" "nxt launched = 1"
  by (simp_all add: launched_def setVelocity_def newEntity_def emptyWorld_def
      unallocated_def Vector2D_def)

lemma staged_simps [simp]:
  "ents staged 0 = unallocated\<lparr>game := Some 0\<rparr>"
  "games staged g = \<lparr>frameCounter = 1, lastFrameTotalRenders = 0\<rparr>"
  "clock staged = 0" "nxt staged = 1"
  by (simp_all add: staged_def newEntity_def emptyWorld_def unallocated_def Vector2D_def)

lemma coasted_simps [simp]:
  "ents coasted 0 = unallocated\<lparr>game := Some 0, lastRelativePosCalculated := 1,
      velocity := \<lparr>vx = 1, vy = 0\<rparr>, pos := \<lparr>vx = 5, vy = 0\<rparr>\<rparr>"
  "games coasted g = \<lparr>frameCounter = 1, lastFrameTotalRenders = 0\<rparr>"
  "clock coasted = 0" "nxt coasted = 1"
  by (simp_all add: coasted_def warmed_def Vector2D_def)

lemma nursery_simps [simp]:
  "ents nursery 0 = unallocated\<lparr>game := Some 0, lastRelativePosCalculated := 1,
      velocity := \<lparr>vx = 1, vy = 0\<rparr>, pos := \<lparr>vx = 5, vy = 0\<rparr>, children := [1]\<rparr>"
  "ents nursery (Suc 0) = unallocated\<lparr>game := Some 0, parent := Some 0\<rparr>"
  "games nursery g = \<lparr>frameCounter = 1, lastFrameTotalRenders = 0\<rparr>"
  "clock nursery = 0"
  by (simp_all add: nursery_def newEntity_def unallocated_def Vector2D_def)

lemma nursery_simps2 [simp]:
  "nxt nursery = 2"
  by (simp_all add: nursery_def newEntity_def)

lemma nextFrame_simps [simp]:
  "ents nextFrame 0 = unallocated\<lparr>game := Some 0, lastRelativePosCalculated := 1,
      velocity := \<lparr>vx = 1, vy = 0\<rparr>, pos := \<lparr>vx = 5, vy = 0\<rparr>, children := [1]\<rparr>"
  "ents nextFrame (Suc 0) = unallocated\<lparr>game := Some 0, parent := Some 0\<rparr>"
  "games nextFrame g = \<lparr>frameCounter = 2, lastFrameTotalRenders = 0\<rparr>"
  by (simp_all add: nextFrame_def nursery_def newEntity_def unallocated_def Vector2D_def)

lemma orbit_simps [simp]:
  "ents orbit 0 = unallocated\<lparr>fields_list := [1]\<rparr>"
  "ents orbit (Suc 0) = unallocated\<lparr>pos := \<lparr>vx = 1, vy = 0\<rparr>, relativePos := \<lparr>vx = 1, vy = 0\<rparr>, mass := Some 1\<rparr>"
  "clock orbit = 0"
  by (simp_all add: orbit_def newEntity_def emptyWorld_def unallocated_def Vector2D_def)

lemma trio_simps [simp]:
  "ents trio q = unallocated" "nxt trio = 3" "clock trio = 0"
  by (simp_all add: trio_def newEntity_def emptyWorld_def unallocated_def fun_eq_iff)

section \<open>Relative position resolution\<close>

declare calculateRelativePos.simps(2) [simp del]

lemma calc_not_stale:
  "\<not> stale w r \<Longrightarrow> calculateRelativePos (Suc n) r w = Inr (relativePos (ents w r), w)"
  by (simp add: calculateRelativePos.simps(2) stale_def split: option.splits)

lemma calc_stale_orphan:
  assumes "game (ents w r) = Some g"
    and "lastRelativePosCalculated (ents w r) < frameCounter (games w g)"
    and "parent (ents w r) = None"
  shows "calculateRelativePos (Suc n) r w =
     Inr (pos (ents w r),
          upd r (\<lambda>e. e\<lparr>relativePos := pos e, lastRelativePosCalculated := frameCounter (games w g)\<rparr>) w)"
  using assms
  by (simp add: calculateRelativePos.simps(2) upd_def fun_eq_iff)

lemma calc_stale_parent_unfold:
  assumes "game (ents w r) = Some g"
    and "lastRelativePosCalculated (ents w r) < frameCounter (games w g)"
    and "parent (ents w r) = Some p"
  shows "calculateRelativePos (Suc n) r w =
     bindE (relativeLeft n p w) (\<lambda>(pl, w1).
       let w2 = upd r (\<lambda>e. e\<lparr>relativePos := (relativePos e)\<lparr>vx := vx (pos (ents w r)) + pl\<rparr>\<rparr>) w1 in
       bindE (relativeTop n p w2) (\<lambda>(pt, w3).
         let w4 = upd r (\<lambda>e. e\<lparr>relativePos := (relativePos e)\<lparr>vy := vy (pos (ents w2 r)) + pt\<rparr>\<rparr>) w3 in
         case game (ents w4 r) of
           None \<Rightarrow> Inl TypeError
         | Some g' \<Rightarrow>
            let w5 = upd r (\<lambda>e. e\<lparr>lastRelativePosCalculated := frameCounter (games w4 g')\<rparr>) w4
            in Inr (relativePos (ents w5 r), w5)))"
  using assms
  by (auto simp add: calculateRelativePos.simps(2) Let_def bindE_def
      split: sum.splits prod.splits option.splits)

lemma stale_cache_field [simp]:
  "stale (upd r (\<lambda>e. e\<lparr>relativePos := f e\<rparr>) w) q = stale w q"
  by (auto simp add: stale_def split: option.splits)

lemma cache_only_refl [simp]: "cache_only w w"
  by (simp add: cache_only_def)

lemma cache_only_trans: "cache_only w w1 \<Longrightarrow> cache_only w1 w2 \<Longrightarrow> cache_only w w2"
  unfolding cache_only_def
  apply (intro conjI allI)
  apply simp
  apply simp
  apply simp
  apply (erule conjE)+
  subgoal for q
    apply (drule_tac x=q in spec)+
    apply (cases "ents w q"; cases "ents w1 q"; cases "ents w2 q")
    apply simp
    done
  done

lemma cache_only_fields:
  assumes "cache_only w w'"
  shows "pos (ents w' q) = pos (ents w q)"
    and "game (ents w' q) = game (ents w q)"
    and "parent (ents w' q) = parent (ents w q)"
    and "games w' = games w"
proof -
  from assms have e: "ents w' q = (ents w q)\<lparr>relativePos := relativePos (ents w' q),
              lastRelativePosCalculated := lastRelativePosCalculated (ents w' q)\<rparr>"
    and g: "games w' = games w"
    by (simp_all add: cache_only_def)
  show "pos (ents w' q) = pos (ents w q)" by (subst e) simp
  show "game (ents w' q) = game (ents w q)" by (subst e) simp
  show "parent (ents w' q) = parent (ents w q)" by (subst e) simp
  show "games w' = games w" by (rule g)
qed


lemma calc_stale_parent_aux:
  assumes g: "game (ents w r) = Some g"
    and lt: "lastRelativePosCalculated (ents w r) < frameCounter (games w g)"
    and par: "parent (ents w r) = Some p"
    and c1: "calculateRelativePos n p w = Inr (v1, w1)"
    and co: "cache_only w w1"
    and ns: "\<not> stale w1 p"
    and v1: "v1 = relativePos (ents w1 p)"
  shows "calculateRelativePos (Suc n) r w =
     Inr (add (pos (ents w r)) v1,
          upd r (\<lambda>e. e\<lparr>relativePos := add (pos (ents w r)) v1,
                        lastRelativePosCalculated := frameCounter (games w g)\<rparr>) w1)"
proof -
  obtain m where n: "n = Suc m" using c1 by (cases n) simp_all
  define w2 where "w2 = upd r (\<lambda>e. e\<lparr>relativePos := (relativePos e)\<lparr>vx := vx (pos (ents w r)) + vx v1\<rparr>\<rparr>) w1"
  have ns2: "\<not> stale w2 p" using ns by (simp add: w2_def)
  have c2: "calculateRelativePos n p w2 = Inr (relativePos (ents w2 p), w2)"
    unfolding n by (rule calc_not_stale[OF ns2])
  have vy2: "vy (relativePos (ents w2 p)) = vy v1"
    by (simp add: w2_def v1)
  have posr: "pos (ents w1 r) = pos (ents w r)"
    by (rule cache_only_fields(1)[OF co])
  have py: "vy (pos (ents w2 r)) = vy (pos (ents w r))"
    using posr by (simp add: w2_def)
  have gm: "game (ents w1 r) = Some g" "games w1 = games w"
    using cache_only_fields(2)[OF co, of r] cache_only_fields(4)[OF co] g by simp_all
  show ?thesis
    unfolding calc_stale_parent_unfold[OF g lt par]
    apply (simp add: c1 Let_def)
    apply (fold w2_def)
    apply (simp add: c2 vy2 py)
    apply (simp add: w2_def gm)
    apply (simp add: upd_def fun_eq_iff add_def posr)
    done
qed

lemma calc_cache_only:
  "calculateRelativePos n r w = Inr (v, w') \<Longrightarrow>
     cache_only w w' \<and> v = relativePos (ents w' r) \<and> \<not> stale w' r"
proof (induction n arbitrary: r w v w')
  case 0
  then show ?case by simp
next
  case (Suc n)
  show ?case
  proof (cases "stale w r")
    case False
    with Suc.prems show ?thesis by (auto simp add: calc_not_stale)
  next
    case True
    then obtain g where g: "game (ents w r) = Some g"
      and lt: "lastRelativePosCalculated (ents w r) < frameCounter (games w g)"
      by (auto simp: stale_def split: option.splits)
    show ?thesis
    proof (cases "parent (ents w r)")
      case None
      with Suc.prems g lt show ?thesis
        by (auto simp: calc_stale_orphan cache_only_def stale_def)
    next
      case (Some p)
      from Suc.prems obtain v1 w1 where c1: "calculateRelativePos n p w = Inr (v1, w1)"
        by (cases "calculateRelativePos n p w") (auto simp: calc_stale_parent_unfold[OF g lt Some])
      from Suc.IH[OF c1] have ih: "cache_only w w1" "\<not> stale w1 p" "v1 = relativePos (ents w1 p)"
        by simp_all
      note eq = calc_stale_parent_aux[OF g lt Some c1 ih]
      have co: "cache_only w1 w'"
        using Suc.prems unfolding eq by (auto simp: cache_only_def)
      have "game (ents w1 r) = Some g" "games w1 = games w"
        using cache_only_fields(2)[OF ih(1), of r] cache_only_fields(4)[OF ih(1)] g by simp_all
      then have "\<not> stale w' r" "v = relativePos (ents w' r)"
        using Suc.prems unfolding eq by (auto simp: stale_def)
      with cache_only_trans[OF ih(1) co] show ?thesis by simp
    qed
  qed
qed

lemma calc_stale_parent:
  assumes "game (ents w r) = Some g"
    and "lastRelativePosCalculated (ents w r) < frameCounter (games w g)"
    and "parent (ents w r) = Some p"
    and "calculateRelativePos n p w = Inr (v1, w1)"
  shows "calculateRelativePos (Suc n) r w =
     Inr (add (pos (ents w r)) v1,
          upd r (\<lambda>e. e\<lparr>relativePos := add (pos (ents w r)) v1,
                        lastRelativePosCalculated := frameCounter (games w g)\<rparr>) w1)"
  using calc_stale_parent_aux[OF assms] calc_cache_only[OF assms(4)] by simp

lemma calc_idempotent:
  assumes "calculateRelativePos n r w = Inr (v, w')"
  shows "calculateRelativePos (Suc m) r w' = Inr (v, w')"
  using calc_cache_only[OF assms] by (simp add: calc_not_stale)







section \<open>The traversals\<close>

lemma forEach_from_log:
  assumes cb: "\<forall>c s s'. cb c s = Inr s' \<longrightarrow> (\<exists>ev. snd s' = snd s @ ev)"
  shows "forEach_from cb arr k m s = Inr s' \<Longrightarrow> \<exists>ev. snd s' = snd s @ ev"
proof (induction m arbitrary: k s)
  case 0
  then show ?case by simp
next
  case (Suc m)
  show ?case
  proof (cases "k < length (arr s)")
    case True
    with Suc.prems obtain s1 where a: "cb (arr s ! k) s = Inr s1"
      and b: "forEach_from cb arr (Suc k) m s1 = Inr s'"
      by (auto simp: bindE_eq_Inr)
    from cb a Suc.IH[OF b] show ?thesis by fastforce
  next
    case False
    with Suc.prems Suc.IH show ?thesis by simp
  qed
qed

lemma forEach_from_invariant:
  assumes cb: "\<forall>c s s'. cb c s = Inr s' \<longrightarrow> P s \<longrightarrow> P s'"
  shows "P s \<Longrightarrow> forEach_from cb arr k m s = Inr s' \<Longrightarrow> P s'"
proof (induction m arbitrary: k s)
  case 0
  then show ?case by simp
next
  case (Suc m)
  show ?case
  proof (cases "k < length (arr s)")
    case True
    with Suc.prems obtain s1 where a: "cb (arr s ! k) s = Inr s1"
      and b: "forEach_from cb arr (Suc k) m s1 = Inr s'"
      by (auto simp: bindE_eq_Inr)
    from cb a Suc.prems(1) have "P s1" by blast
    from Suc.IH[OF this b] show ?thesis .
  next
    case False
    with Suc.prems Suc.IH show ?thesis by simp
  qed
qed

lemma forEach_first:
  assumes "arr s \<noteq> []"
  shows "forEach cb arr s = bindE (cb (hd (arr s)) s) (forEach_from cb arr 1 (length (arr s) - 1))"
  using assms by (cases "arr s") (simp_all add: forEach_def hd_conv_nth)

lemma forEach_first_logged:
  assumes cb: "\<forall>c s s'. cb c s = Inr s' \<longrightarrow> (\<exists>ev. snd s' = snd s @ mk c # ev)"
    and ne: "children (ents w r) \<noteq> []"
    and run: "forEach cb (\<lambda>s. children (ents (fst s) r)) (w, lg) = Inr (w', lg')"
  shows "\<exists>rest. lg' = lg @ mk (hd (children (ents w r))) # rest"
proof -
  note ff = forEach_first[of "\<lambda>s. children (ents (fst s) r)" "(w, lg)" cb, simplified]
  from run ne ff obtain s1 where c1: "cb (hd (children (ents w r))) (w, lg) = Inr s1"
    and c2: "forEach_from cb (\<lambda>s. children (ents (fst s) r)) 1 (length (children (ents w r)) - 1) s1 = Inr (w', lg')"
    by (auto simp: bindE_eq_Inr)
  have cb': "\<forall>c s s'. cb c s = Inr s' \<longrightarrow> (\<exists>ev. snd s' = snd s @ ev)"
    using cb by fastforce
  from cb c1 obtain ev1 where "snd s1 = lg @ mk (hd (children (ents w r))) # ev1" by fastforce
  with forEach_from_log[where cb=cb, OF cb' c2] show ?thesis by auto
qed

lemma updateEntity_Suc:
  "updateEntity (Suc n) U delta r (w, lg) =
     bindE (tickSelf n delta r w) (\<lambda>w2.
       case callUpdate U delta r w2 of (updated, w3, ev) \<Rightarrow>
         if truthy updated \<or> updated = JUndefined \<or> update (ents w3 r) = None
         then forEach (updateEntity n U delta) (\<lambda>s'. children (ents (fst s') r))
                (w3, lg @ Update r # ev)
         else Inr (w3, lg @ Update r # ev))"
  by (simp add: updateEntity.simps(2) renderEntity.simps(2) Let_def split: prod.splits)

lemma updateEntity_log:
  "updateEntity n U delta r s = Inr s' \<Longrightarrow> \<exists>ev. snd s' = snd s @ Update r # ev"
proof (induction n arbitrary: r s s')
  case 0
  then show ?case by simp
next
  case (Suc n)
  have cb: "\<forall>c s s'. updateEntity n U delta c s = Inr s' \<longrightarrow> (\<exists>ev. snd s' = snd s @ ev)"
    using Suc.IH by fastforce
  obtain w lg where s: "s = (w, lg)" by (cases s)
  from Suc.prems obtain w2 where t: "tickSelf n delta r w = Inr w2"
    unfolding s updateEntity_Suc by (auto simp: bindE_eq_Inr)
  obtain v w3 ev where c: "callUpdate U delta r w2 = (v, w3, ev)" by (cases "callUpdate U delta r w2")
  show ?case
  proof (cases "truthy v \<or> v = JUndefined \<or> update (ents w3 r) = None")
    case True
    with Suc.prems t c have "forEach (updateEntity n U delta) (\<lambda>s'. children (ents (fst s') r))
                (w3, lg @ Update r # ev) = Inr s'"
      unfolding s updateEntity_Suc by simp
    from forEach_from_log[where cb="updateEntity n U delta", OF cb this[unfolded forEach_def]]
    show ?thesis by (auto simp: s)
  next
    case False
    with Suc.prems t c show ?thesis unfolding s updateEntity_Suc by auto
  qed
qed

lemma renderEntity_Suc:
  "renderEntity (Suc n) R r (w, lg) =
     (case callRender R r w of (rendered, w1, ev) \<Rightarrow>
        bindE (if truthy rendered then countRender r w1 else Inr w1) (\<lambda>w2.
          if truthy rendered \<or> rendered = JUndefined \<or> render (ents w2 r) = None
          then forEach (renderEntity n R) (\<lambda>s'. children (ents (fst s') r)) (w2, lg @ Render r # ev)
          else Inr (w2, lg @ Render r # ev)))"
  by (simp add: updateEntity.simps(2) renderEntity.simps(2) Let_def split: prod.splits)

lemma renderEntity_log:
  "renderEntity n R r s = Inr s' \<Longrightarrow> \<exists>ev. snd s' = snd s @ Render r # ev"
proof (induction n arbitrary: r s s')
  case 0
  then show ?case by simp
next
  case (Suc n)
  have cb: "\<forall>c s s'. renderEntity n R c s = Inr s' \<longrightarrow> (\<exists>ev. snd s' = snd s @ ev)"
    using Suc.IH by fastforce
  obtain w lg where s: "s = (w, lg)" by (cases s)
  obtain v w1 ev where c: "callRender R r w = (v, w1, ev)" by (cases "callRender R r w")
  from Suc.prems obtain w2 where t: "(if truthy v then countRender r w1 else Inr w1) = Inr w2"
    unfolding s renderEntity_Suc c by (auto simp: bindE_eq_Inr)
  show ?case
  proof (cases "truthy v \<or> v = JUndefined \<or> render (ents w2 r) = None")
    case True
    with Suc.prems t c have "forEach (renderEntity n R) (\<lambda>s'. children (ents (fst s') r))
                (w2, lg @ Render r # ev) = Inr s'"
      unfolding s renderEntity_Suc by simp
    from forEach_from_log[where cb="renderEntity n R", OF cb this[unfolded forEach_def]]
    show ?thesis by (auto simp: s)
  next
    case False
    with Suc.prems t c show ?thesis unfolding s renderEntity_Suc by auto
  qed
qed

section \<open>What the steps of an update leave alone\<close>

lemma motion_only_refl [simp]: "motion_only w w"
  by (simp add: motion_only_def)








lemma firstIndex_None: "firstIndex xs c = None \<longleftrightarrow> c \<notin> set xs"
  by (induction xs) auto

lemma firstIndex_splice: "firstIndex xs c = Some i \<Longrightarrow> splice1 i xs = remove1 c xs"
proof (induction xs arbitrary: i)
  case Nil
  then show ?case by simp
next
  case (Cons a xs)
  then show ?case by (auto simp: splice1_def split: if_splits)
qed

lemma detach_children:
  "children (ents (snd (detachChildEntity p c w)) q) =
     (if q = p then remove1 c (children (ents w p)) else children (ents w q))"
  by (auto simp: detachChildEntity_def firstIndex_splice firstIndex_None remove1_idem
      split: option.splits)





section \<open>The field force in closed form\<close>




text \<open>
  A field without mass, or at distance zero from the entity, contributes \<open>NaN\<close> in both
  coordinates, and the loop returns.
\<close>

lemma times_NaN [simp]: "x * NaN = NaN" "NaN * x = NaN"
  by (cases x; simp)+

lemma plus_NaN [simp]: "x + NaN = NaN" "NaN + x = NaN"
  by (cases x; simp)+

lemma divide_NaN [simp]: "x / NaN = NaN" "NaN / x = NaN"
  by (cases x; simp)+

lemma zero_times_divide_zero [simp]: "Fin 0 * (m / Fin 0) = NaN"
  by (cases m) simp_all

lemma fieldsLoop_massless:
  assumes "\<not> stale w r" and "\<not> stale w f" and "mass (ents w f) = None"
  shows "fieldsLoop (Suc n) delta r [f] acc w = Inr (Vector2D NaN NaN, w)"
  using assms by (simp add: calc_not_stale Let_def add_def multiply_def Vector2D_def)

lemma fieldsLoop_zero_distance:
  assumes "\<not> stale w r" and "\<not> stale w f" and "mass (ents w f) = Some m"
    and "relativePos (ents w f) = relativePos (ents w r)"
    and "isFinite (vx (relativePos (ents w r)))" and "isFinite (vy (relativePos (ents w r)))"
  shows "fieldsLoop (Suc n) delta r [f] acc w = Inr (Vector2D NaN NaN, w)"
proof -
  from assms(5,6) obtain a b where "vx (relativePos (ents w r)) = Fin a"
    "vy (relativePos (ents w r)) = Fin b"
    by (auto simp: isFinite_iff)
  with assms(1-4) show ?thesis
    by (simp add: calc_not_stale Let_def add_def multiply_def dot_def Vector2D_def)
qed

section \<open>The shape of the parent/child structure\<close>

lemma updateGame_children:
  "updateGame n g r w = Inr w' \<Longrightarrow>
     (\<forall>q. children (ents w' q) = children (ents w q)) \<and> nxt w' = nxt w"
proof (induction n arbitrary: r w w')
  case 0
  then show ?case by simp
next
  case (Suc n)
  let ?w1 = "upd r (\<lambda>e. e\<lparr>game := g\<rparr>) w"
  let ?P = "\<lambda>s. (\<forall>q. children (ents s q) = children (ents w q)) \<and> nxt s = nxt w"
  have cb: "\<forall>c s s'. updateGame n g c s = Inr s' \<longrightarrow> ?P s \<longrightarrow> ?P s'"
    using Suc.IH by fastforce
  have p1: "?P ?w1" by simp
  from Suc.prems have "forEach_from (updateGame n g) (\<lambda>s. children (ents s r)) 0
      (length (children (ents ?w1 r))) ?w1 = Inr w'"
    by (simp add: forEach_def)
  from forEach_from_invariant[where cb="updateGame n g" and P="?P", OF cb p1 this]
  show ?case .
qed

lemma edges_mono:
  assumes "\<forall>q. set (children (ents w' q)) \<subseteq> set (children (ents w q))"
  shows "edges w' \<subseteq> edges w"
  using assms by (auto simp: edges_def)

lemma tree_shaped_shrink:
  assumes "tree_shaped w"
    and "\<forall>q. set (children (ents w' q)) \<subseteq> set (children (ents w q))"
  shows "tree_shaped w'"
proof -
  have "acyclic (edges w')"
    using assms(1) edges_mono[OF assms(2)] by (auto simp: tree_shaped_def intro: acyclic_subset)
  moreover have "\<forall>p q c. c \<in> set (children (ents w' p)) \<and> c \<in> set (children (ents w' q)) \<longrightarrow> p = q"
    using assms unfolding tree_shaped_def by blast
  ultimately show ?thesis by (simp add: tree_shaped_def)
qed

lemma tree_shaped_push:
  assumes t: "tree_shaped w"
    and fresh: "\<forall>q. c \<notin> set (children (ents w q))"
    and nc: "(c, p) \<notin> (edges w)\<^sup>*"
    and ch: "\<forall>q. children (ents w' q) = (if q = p then children (ents w p) @ [c] else children (ents w q))"
  shows "tree_shaped w'"
proof -
  have e: "edges w' = insert (p, c) (edges w)"
    using ch by (auto simp: edges_def split: if_splits)
  have "acyclic (edges w')"
    unfolding e using t nc by (simp add: tree_shaped_def)
  moreover have "\<forall>a b x. x \<in> set (children (ents w' a)) \<and> x \<in> set (children (ents w' b)) \<longrightarrow> a = b"
  proof (intro allI impI)
    fix a b x
    assume h: "x \<in> set (children (ents w' a)) \<and> x \<in> set (children (ents w' b))"
    show "a = b"
    proof (cases "x = c")
      case True
      with h fresh ch show ?thesis by (auto split: if_splits)
    next
      case False
      with h ch have "x \<in> set (children (ents w a)) \<and> x \<in> set (children (ents w b))"
        by (auto split: if_splits)
      with t show ?thesis unfolding tree_shaped_def by blast
    qed
  qed
  ultimately show ?thesis by (simp add: tree_shaped_def)
qed

lemma tree_shaped_detach:
  "tree_shaped w \<Longrightarrow> tree_shaped (snd (detachChildEntity p c w))"
  by (rule tree_shaped_shrink) (auto simp: detach_children dest: set_remove1_subset[THEN subsetD])

lemma tree_shaped_add:
  assumes t: "tree_shaped w"
    and fresh: "\<forall>q. c \<notin> set (children (ents w q))"
    and nc: "(c, p) \<notin> (edges w)\<^sup>*"
    and run: "addChildEntity n p c w = Inr (c', w')"
  shows "tree_shaped w'"
proof -
  from run obtain w2 where g: "updateGame n (game (ents w p)) c w = Inr w2"
    and w': "w' = upd p (\<lambda>e. e\<lparr>children := children e @ [c]\<rparr>) (upd c (\<lambda>e. e\<lparr>parent := Some p\<rparr>) w2)"
    by (auto simp: addChildEntity_def bindE_eq_Inr Let_def)
  from updateGame_children[OF g] have c2: "\<forall>q. children (ents w2 q) = children (ents w q)" by simp
  show ?thesis
    by (rule tree_shaped_push[OF t fresh nc]) (simp add: w' c2)
qed

lemma createChildEntity_Suc:
  "createChildEntity (Suc n) p w =
     Inr (nxt w,
          upd p (\<lambda>e. e\<lparr>children := children e @ [nxt w]\<rparr>)
            (upd (nxt w) (\<lambda>e. e\<lparr>parent := Some p\<rparr>)
              (upd (nxt w) (\<lambda>e. e\<lparr>game := game (ents (snd (newEntity 0 0 w)) p)\<rparr>)
                (snd (newEntity 0 0 w)))))"
  by (simp add: createChildEntity_def newEntity_def Let_def)

lemma tree_shaped_create:
  assumes t: "tree_shaped w"
    and alloc: "p < nxt w"
    and fresh: "\<forall>q. nxt w \<notin> set (children (ents w q))"
    and run: "createChildEntity n p w = Inr (c, w')"
  shows "tree_shaped w'"
proof -
  obtain m where n: "n = Suc m"
    using run by (cases n) (simp_all add: createChildEntity_def newEntity_def Let_def)
  define w1 where "w1 = snd (newEntity 0 0 w)"
  have ch1: "children (ents w1 q) = (if q = nxt w then [] else children (ents w q))" for q
    by (simp add: w1_def newEntity_def Let_def)
  have t1: "tree_shaped w1"
    by (rule tree_shaped_shrink[OF t]) (simp add: ch1)
  have f1: "\<forall>q. nxt w \<notin> set (children (ents w1 q))"
    using fresh by (simp add: ch1)
  have "(nxt w, p) \<notin> (edges w1)\<^sup>*"
  proof
    assume "(nxt w, p) \<in> (edges w1)\<^sup>*"
    then show False
    proof (cases rule: converse_rtranclE)
      case base
      with alloc show ?thesis by simp
    next
      case (step y)
      then show ?thesis by (simp add: edges_def ch1)
    qed
  qed
  moreover from run have w': "w' = upd p (\<lambda>e. e\<lparr>children := children e @ [nxt w]\<rparr>)
            (upd (nxt w) (\<lambda>e. e\<lparr>parent := Some p\<rparr>)
              (upd (nxt w) (\<lambda>e. e\<lparr>game := game (ents w1 p)\<rparr>) w1))"
    unfolding n createChildEntity_Suc w1_def by auto
  ultimately show ?thesis
    using alloc by (intro tree_shaped_push[OF t1 f1]) (auto simp: w' ch1)
qed

lemma tree_shaped_no_children:
  "\<forall>q. children (ents w q) = [] \<Longrightarrow> tree_shaped w"
  by (simp add: tree_shaped_def edges_def acyclic_def)

lemma addChildEntity_leaf:
  assumes "children (ents w c) = []"
  shows "addChildEntity (Suc n) p c w =
     Inr (c, upd p (\<lambda>e. e\<lparr>children := children e @ [c]\<rparr>)
               (upd c (\<lambda>e. e\<lparr>parent := Some p\<rparr>) (upd c (\<lambda>e. e\<lparr>game := game (ents w p)\<rparr>) w)))"
  using assms by (simp add: addChildEntity_def)

section \<open>The claims\<close>

subsection \<open>C1: the field force and the integration step\<close>




subsection \<open>C2: rendering a node that is not displayed\<close>

text \<open>
  C2, as stated, fails. A node with \<open>display = false\<close>, no render hook and one child:
  \<open>renderEntity\<close> is invoked on the child. With no render hook the test
  \<^verbatim>\<open>typeof this.render === "undefined"\<close> lets the walk go on.
\<close>

theorem hidden_group_children_rendered:
  "display (ents hidden 0) = JBool False \<and> children (ents hidden 0) = [1]
   \<and> renderEntity 2 noRenderHooks 0 (hidden, []) = Inr (hidden, [Render 0, Render 1])"
  by (simp add: hidden_def numeral_2_eq_2 renderEntity_Suc callRender_def forEach_def)

text \<open>
  C2, amended: for every entity whose \<open>display\<close> is false (or any other falsy value but
  \<open>undefined\<close>), \<open>renderEntity\<close> does not invoke the entity's render hook; when a render
  hook is present it invokes \<open>renderEntity\<close> on no child and leaves the world as it was;
  when no render hook is present it walks the children, and the first child is rendered
  right after the node.
\<close>

theorem hidden_entity_render:
  assumes "\<not> truthy (display (ents w r))" and "display (ents w r) \<noteq> JUndefined"
  shows "callRender R r w = (display (ents w r), w, [])
       \<and> (render (ents w r) \<noteq> None \<longrightarrow> renderEntity (Suc n) R r (w, lg) = Inr (w, lg @ [Render r]))
       \<and> (render (ents w r) = None \<longrightarrow>
            renderEntity (Suc n) R r (w, lg) =
              forEach (renderEntity n R) (\<lambda>s. children (ents (fst s) r)) (w, lg @ [Render r])
          \<and> (\<forall>w' lg'. children (ents w r) \<noteq> [] \<and> renderEntity (Suc n) R r (w, lg) = Inr (w', lg')
                \<longrightarrow> (\<exists>rest. lg' = lg @ Render r # Render (hd (children (ents w r))) # rest)))"
proof -
  have c: "callRender R r w = (display (ents w r), w, [])"
    using assms by (simp add: callRender_def)
  have a: "render (ents w r) \<noteq> None \<Longrightarrow> renderEntity (Suc n) R r (w, lg) = Inr (w, lg @ [Render r])"
    unfolding renderEntity_Suc c using assms by auto
  have b: "render (ents w r) = None \<Longrightarrow> renderEntity (Suc n) R r (w, lg) =
              forEach (renderEntity n R) (\<lambda>s. children (ents (fst s) r)) (w, lg @ [Render r])"
    unfolding renderEntity_Suc c using assms by auto
  have cb: "\<forall>c s s'. renderEntity n R c s = Inr s' \<longrightarrow> (\<exists>ev. snd s' = snd s @ Render c # ev)"
    using renderEntity_log by blast
  have d: "\<exists>rest. lg' = lg @ Render r # Render (hd (children (ents w r))) # rest"
    if "render (ents w r) = None" "children (ents w r) \<noteq> []"
      "renderEntity (Suc n) R r (w, lg) = Inr (w', lg')" for w' lg'
    using forEach_first_logged[where cb="renderEntity n R" and mk=Render, OF cb that(2), of "lg @ [Render r]" w' lg']
      that(3) b[OF that(1)] by simp
  show ?thesis using c a b d by blast
qed

theorem hidden_entity_render_witness:
  "\<not> truthy (display (ents veiled 0)) \<and> display (ents veiled 0) \<noteq> JUndefined
   \<and> render (ents veiled 0) \<noteq> None
   \<and> renderEntity 2 alwaysDrawn 0 (veiled, []) = Inr (veiled, [Render 0])
   \<and> \<not> truthy (display (ents hidden 0)) \<and> display (ents hidden 0) \<noteq> JUndefined
   \<and> render (ents hidden 0) = None \<and> children (ents hidden 0) \<noteq> []
   \<and> renderEntity 2 alwaysDrawn 0 (hidden, []) = Inr (hidden, [Render 0, Render 1])"
proof -
  have v: "\<not> truthy (display (ents veiled 0))" "display (ents veiled 0) \<noteq> JUndefined"
    "render (ents veiled 0) \<noteq> None"
    by (simp_all add: veiled_def hidden_def)
  have h: "\<not> truthy (display (ents hidden 0))" "display (ents hidden 0) \<noteq> JUndefined"
    "render (ents hidden 0) = None" "children (ents hidden 0) \<noteq> []"
    by (simp_all add: hidden_def)
  have f: "forEach (renderEntity 1 alwaysDrawn) (\<lambda>s. children (ents (fst s) 0)) (hidden, [Render 0])
     = Inr (hidden, [Render 0, Render 1])"
    by (simp add: hidden_def renderEntity_Suc callRender_def forEach_def)
  show ?thesis
    using hidden_entity_render[OF v(1,2), of alwaysDrawn 1 "[]"] hidden_entity_render[OF h(1,2), of alwaysDrawn 1 "[]"] v h f
    by (simp add: numeral_2_eq_2)
qed

subsection \<open>C3: propagation of the update traversal\<close>

text \<open>
  C3, as stated, fails. The parent of \<open>paused\<close> has an update hook and one child. A hook
  that removes itself from the entity and returns \<open>false\<close> returns a defined falsy value,
  and the child is updated all the same: after the call
  \<^verbatim>\<open>typeof this.update === "undefined"\<close> holds, and the walk over the children goes on.
\<close>

theorem self_removing_hook_updates_children:
  "update (ents paused 0) = Some 0 \<and> children (ents paused 0) = [1]
   \<and> tickSelf 1 1 0 paused = Inr ticked
   \<and> quittingHooks 0 1 0 ticked = (JBool False, retired)
   \<and> \<not> truthy (JBool False) \<and> JBool False \<noteq> JUndefined
   \<and> updateEntity 2 quittingHooks 1 0 (paused, [])
       = Inr (retired, [Update 0, UpdateHook 0, Update 1])"
proof -
  have t: "tickSelf 1 1 0 paused = Inr ticked"
    by (simp add: tickSelf_def expire_def integrate_def calculateFields_def paused_def ticked_def
        add_def Vector2D_def upd_def fun_eq_iff)
  have h: "quittingHooks 0 1 0 ticked = (JBool False, retired)"
    by (simp add: quittingHooks_def retired_def)
  have c: "callUpdate quittingHooks 1 0 ticked = (JBool False, retired, [UpdateHook 0])"
    using h by (simp add: callUpdate_def ticked_def paused_def)
  have f: "forEach (updateEntity 1 quittingHooks 1) (\<lambda>s. children (ents (fst s) 0))
             (retired, [Update 0, UpdateHook 0]) = Inr (retired, [Update 0, UpdateHook 0, Update 1])"
    by (simp add: forEach_def updateEntity_Suc tickSelf_def expire_def integrate_def callUpdate_def
        paused_def ticked_def retired_def)
  have u: "updateEntity 2 quittingHooks 1 0 (paused, [])
       = Inr (retired, [Update 0, UpdateHook 0, Update 1])"
    using t c f by (simp add: numeral_2_eq_2 updateEntity_Suc retired_def)
  show ?thesis using t h u by (simp add: paused_def)
qed

text \<open>
  C3, amended: in \<open>updateEntity\<close> the node's own step (\<open>tickSelf\<close>: expiry, then
  integration) runs first; an exception in it ends the call, and otherwise the hook is
  called on the world the step leaves. The children are walked exactly when the value of
  \<^verbatim>\<open>this.update && this.update(delta)\<close> is truthy or undefined, or the entity has no update
  hook once the hook has returned: the call then is the walk over the children, and the
  first child is updated right after the node. When the hook returned a defined falsy
  value and is still set on the entity, the call ends with the world the hook left, the
  node's own step done, and updates no child.
\<close>

theorem update_propagation:
  "(tickSelf n delta r w = Inl e \<longrightarrow> updateEntity (Suc n) U delta r (w, lg) = Inl e)
   \<and> (tickSelf n delta r w = Inr w2 \<and> callUpdate U delta r w2 = (v, w3, ev) \<longrightarrow>
         (truthy v \<or> v = JUndefined \<or> update (ents w3 r) = None \<longrightarrow>
            updateEntity (Suc n) U delta r (w, lg) =
              forEach (updateEntity n U delta) (\<lambda>s. children (ents (fst s) r)) (w3, lg @ Update r # ev)
          \<and> (\<forall>w' lg'. children (ents w3 r) \<noteq> [] \<and> updateEntity (Suc n) U delta r (w, lg) = Inr (w', lg')
                \<longrightarrow> (\<exists>rest. lg' = lg @ Update r # ev @ Update (hd (children (ents w3 r))) # rest)))
       \<and> (\<not> truthy v \<and> v \<noteq> JUndefined \<and> update (ents w3 r) \<noteq> None \<longrightarrow>
            updateEntity (Suc n) U delta r (w, lg) = Inr (w3, lg @ Update r # ev))
       \<and> (update (ents w2 r) = None \<longrightarrow> v = JUndefined \<and> w3 = w2 \<and> ev = [])
       \<and> (\<forall>h. update (ents w2 r) = Some h \<longrightarrow> (v, w3) = U h delta r w2 \<and> ev = [UpdateHook r]))"
proof (intro conjI impI allI)
  assume "tickSelf n delta r w = Inl e"
  then show "updateEntity (Suc n) U delta r (w, lg) = Inl e"
    by (simp add: updateEntity_Suc)
next
  assume oh: "tickSelf n delta r w = Inr w2 \<and> callUpdate U delta r w2 = (v, w3, ev)"
  then have own: "tickSelf n delta r w = Inr w2" and hook: "callUpdate U delta r w2 = (v, w3, ev)"
    by simp_all
  assume p: "truthy v \<or> v = JUndefined \<or> update (ents w3 r) = None"
  show eq: "updateEntity (Suc n) U delta r (w, lg) =
              forEach (updateEntity n U delta) (\<lambda>s. children (ents (fst s) r)) (w3, lg @ Update r # ev)"
    unfolding updateEntity_Suc using own hook p by simp
  fix w' lg'
  assume a: "children (ents w3 r) \<noteq> [] \<and> updateEntity (Suc n) U delta r (w, lg) = Inr (w', lg')"
  note ff = forEach_first[of "\<lambda>s. children (ents (fst s) r)" "(w3, lg @ Update r # ev)"
      "updateEntity n U delta", simplified]
  from a have "forEach (updateEntity n U delta) (\<lambda>s. children (ents (fst s) r)) (w3, lg @ Update r # ev) = Inr (w', lg')"
    using eq by simp
  then obtain s1 where c1: "updateEntity n U delta (hd (children (ents w3 r))) (w3, lg @ Update r # ev) = Inr s1"
    and c2: "forEach_from (updateEntity n U delta) (\<lambda>s. children (ents (fst s) r)) 1 (length (children (ents w3 r)) - 1) s1 = Inr (w', lg')"
    using a ff by (auto simp: bindE_eq_Inr)
  have cb: "\<forall>c s s'. updateEntity n U delta c s = Inr s' \<longrightarrow> (\<exists>ev. snd s' = snd s @ ev)"
    using updateEntity_log by fastforce
  from updateEntity_log[OF c1] forEach_from_log[where cb="updateEntity n U delta", OF cb c2]
  show "\<exists>rest. lg' = lg @ Update r # ev @ Update (hd (children (ents w3 r))) # rest"
    by auto
next
  assume oh: "tickSelf n delta r w = Inr w2 \<and> callUpdate U delta r w2 = (v, w3, ev)"
  assume "\<not> truthy v \<and> v \<noteq> JUndefined \<and> update (ents w3 r) \<noteq> None"
  then show "updateEntity (Suc n) U delta r (w, lg) = Inr (w3, lg @ Update r # ev)"
    unfolding updateEntity_Suc using oh by auto
next
  assume oh: "tickSelf n delta r w = Inr w2 \<and> callUpdate U delta r w2 = (v, w3, ev)"
  assume "update (ents w2 r) = None"
  with oh show "v = JUndefined" "w3 = w2" "ev = []" by (simp_all add: callUpdate_def)
next
  fix h
  assume oh: "tickSelf n delta r w = Inr w2 \<and> callUpdate U delta r w2 = (v, w3, ev)"
  assume "update (ents w2 r) = Some h"
  with oh show "(v, w3) = U h delta r w2" "ev = [UpdateHook r]"
    by (auto simp add: callUpdate_def split: prod.splits)
qed

theorem update_propagation_witness:
  "tickSelf 1 1 0 paused = Inr ticked
   \<and> callUpdate pausingHooks 1 0 ticked = (JBool False, ticked, [UpdateHook 0])
   \<and> update (ents ticked 0) \<noteq> None
   \<and> updateEntity 2 pausingHooks 1 0 (paused, []) = Inr (ticked, [Update 0, UpdateHook 0])
   \<and> left 0 paused = 5 \<and> left 0 ticked = 6 \<and> children (ents ticked 0) = [1]
   \<and> tickSelf 1 1 0 resumed = Inr ticked2
   \<and> callUpdate pausingHooks 1 0 ticked2 = (JBool True, ticked2, [UpdateHook 0])
   \<and> updateEntity 2 pausingHooks 1 0 (resumed, []) = Inr (ticked2, [Update 0, UpdateHook 0, Update 1])
   \<and> tickSelf 1 1 0 colocated = Inr seized
   \<and> callUpdate noUpdateHooks 1 0 seized = (JUndefined, seized, [])
   \<and> updateEntity 2 noUpdateHooks 1 0 (colocated, []) = Inr (seized, [Update 0, Update 1])
   \<and> tickSelf 0 1 0 orphanExpired = Inl TypeError
   \<and> updateEntity 1 noUpdateHooks 1 0 (orphanExpired, []) = Inl TypeError"
proof -
  have t1: "tickSelf 1 1 0 paused = Inr ticked"
    by (simp add: tickSelf_def expire_def integrate_def calculateFields_def paused_def ticked_def
        add_def Vector2D_def upd_def fun_eq_iff)
  have h1: "callUpdate pausingHooks 1 0 ticked = (JBool False, ticked, [UpdateHook 0])"
    "update (ents ticked 0) \<noteq> None"
    by (simp_all add: callUpdate_def pausingHooks_def ticked_def paused_def)
  have t2: "tickSelf 1 1 0 resumed = Inr ticked2"
    by (simp add: tickSelf_def expire_def integrate_def calculateFields_def paused_def ticked_def
        resumed_def ticked2_def add_def Vector2D_def upd_def fun_eq_iff)
  have h2: "callUpdate pausingHooks 1 0 ticked2 = (JBool True, ticked2, [UpdateHook 0])"
    by (simp add: callUpdate_def pausingHooks_def ticked_def paused_def resumed_def ticked2_def)
  have f: "forEach (updateEntity 1 pausingHooks 1) (\<lambda>s. children (ents (fst s) 0))
             (ticked2, [Update 0, UpdateHook 0]) = Inr (ticked2, [Update 0, UpdateHook 0, Update 1])"
    by (simp add: forEach_def updateEntity_Suc tickSelf_def expire_def integrate_def callUpdate_def
        paused_def ticked_def resumed_def ticked2_def)
  have l: "left 0 paused = 5" "left 0 ticked = 6" "children (ents ticked 0) = [1]"
    by (simp_all add: left_def paused_def ticked_def Vector2D_def)
  have t3: "tickSelf 1 1 0 colocated = Inr seized"
    by (simp add: tickSelf_def expire_def integrate_def calculateFields_def colocated_def
        seized_def kicked_def setVelocity_def calc_not_stale stale_def dot_def
        add_def multiply_def Vector2D_def upd_def fun_eq_iff)
  have h3: "callUpdate noUpdateHooks 1 0 seized = (JUndefined, seized, [])"
    by (simp add: callUpdate_def seized_def colocated_def kicked_def setVelocity_def)
  have f3: "forEach (updateEntity 1 noUpdateHooks 1) (\<lambda>s. children (ents (fst s) 0))
             (seized, [Update 0]) = Inr (seized, [Update 0, Update 1])"
    by (simp add: forEach_def updateEntity_Suc tickSelf_def expire_def integrate_def callUpdate_def
        seized_def colocated_def kicked_def setVelocity_def Vector2D_def)
  have t4: "tickSelf 0 1 0 orphanExpired = Inl TypeError"
    by (simp add: tickSelf_def expire_def orphanExpired_def newEntity_def emptyWorld_def)
  note p1 = update_propagation[of 1 1 0 paused TypeError pausingHooks "[]" ticked "JBool False"
      ticked "[UpdateHook 0]", THEN conjunct2, rule_format, OF conjI[OF t1 h1(1)],
      THEN conjunct2, THEN conjunct1, rule_format]
  note p2 = update_propagation[of 1 1 0 resumed TypeError pausingHooks "[]" ticked2 "JBool True"
      ticked2 "[UpdateHook 0]", THEN conjunct2, rule_format, OF conjI[OF t2 h2],
      THEN conjunct1, rule_format, THEN conjunct1]
  note p3 = update_propagation[of 1 1 0 colocated TypeError noUpdateHooks "[]" seized JUndefined
      seized "[]", THEN conjunct2, rule_format, OF conjI[OF t3 h3],
      THEN conjunct1, rule_format, THEN conjunct1]
  note p4 = update_propagation[of 0 1 0 orphanExpired TypeError noUpdateHooks "[]" seized JUndefined
      seized "[]", THEN conjunct1, rule_format, OF t4]
  have u1: "updateEntity 2 pausingHooks 1 0 (paused, []) = Inr (ticked, [Update 0, UpdateHook 0])"
    using p1 h1(2) by (simp add: numeral_2_eq_2)
  have u2: "updateEntity 2 pausingHooks 1 0 (resumed, []) = Inr (ticked2, [Update 0, UpdateHook 0, Update 1])"
    using p2 f by (simp add: numeral_2_eq_2)
  have u3: "updateEntity 2 noUpdateHooks 1 0 (colocated, []) = Inr (seized, [Update 0, Update 1])"
    using p3 f3 by (simp add: numeral_2_eq_2)
  have u4: "updateEntity 1 noUpdateHooks 1 0 (orphanExpired, []) = Inl TypeError"
    using p4 by simp
  show ?thesis
    using t1 h1 u1 l t2 h2 u2 t3 h3 u3 t4 u4 by blast
qed

subsection \<open>C4: reads without a scene context\<close>

text \<open>
  C4, as stated, fails. An entity with no scene context and no parent is created at
  (0, 0), given the velocity (1, 0) and ticked once with \<open>delta = 5\<close>: its \<open>left\<close> is then 5,
  and a read of \<open>relativeLeft\<close> still answers 0 and changes nothing. The read did not
  recompute from the current position.
\<close>

theorem unattached_read_not_recomputed:
  "updateEntity 1 noUpdateHooks 5 0 (launched, []) = Inr (drifted, [Update 0])
   \<and> game (ents drifted 0) = None \<and> parent (ents drifted 0) = None
   \<and> left 0 drifted = 5
   \<and> relativeLeft 1 0 drifted = Inr (0, drifted)"
  apply (intro conjI)
      apply (simp add: updateEntity.simps(2) tickSelf_def callUpdate_def expire_def integrate_def calculateFields_def drifted_def add_def
        Vector2D_def upd_def fun_eq_iff)
     apply (simp_all add: drifted_def left_def Vector2D_def calc_not_stale stale_def)
  done

text \<open>
  C4, amended: for every entity with no scene context, a read of \<open>relativeLeft\<close> or
  \<open>relativeTop\<close> never recomputes. It returns the coordinate stored in the cached relative
  position and leaves the world as it was, whatever the current local position and the
  parent chain are (the guard \<^verbatim>\<open>this._game && ...\<close> of \<^verbatim>\<open>_calculateRelativePos\<close>).
\<close>

theorem unattached_read_returns_stored:
  assumes "game (ents w r) = None"
  shows "relativeLeft (Suc n) r w = Inr (vx (relativePos (ents w r)), w)
       \<and> relativeTop (Suc n) r w = Inr (vy (relativePos (ents w r)), w)"
  using assms by (simp add: calc_not_stale stale_def)

theorem unattached_read_returns_stored_witness:
  "game (ents drifted 0) = None \<and> relativeLeft 1 0 drifted = Inr (0, drifted)
       \<and> relativeTop 1 0 drifted = Inr (0, drifted)"
proof -
  have g: "game (ents drifted 0) = None" by (simp add: drifted_def)
  from unattached_read_returns_stored[OF g, of 0] show ?thesis
    using g by (simp add: drifted_def)
qed

subsection \<open>C5: entities without a parent\<close>




subsection \<open>C6: the per-frame cache\<close>

text \<open>
  C6: two reads of \<open>relativeLeft\<close> with nothing in between return the same value, and the
  second changes nothing; a read under a stamp equal to the frame counter returns the
  cached coordinate and changes nothing; a read under an older stamp recomputes: it
  returns the position (without a parent) or the position added to the parent's resolved
  relative position, and stamps the cache with the frame counter.
\<close>

theorem relative_position_cached_per_frame:
  "(relativeLeft n r w = Inr (a, w1) \<longrightarrow> relativeLeft (Suc m) r w1 = Inr (a, w1))
   \<and> (game (ents w r) = Some g
        \<and> lastRelativePosCalculated (ents w r) = frameCounter (games w g)
      \<longrightarrow> relativeLeft (Suc m) r w = Inr (vx (relativePos (ents w r)), w))
   \<and> (game (ents w r) = Some g
        \<and> lastRelativePosCalculated (ents w r) < frameCounter (games w g)
        \<and> parent (ents w r) = None
      \<longrightarrow> calculateRelativePos (Suc m) r w =
            Inr (pos (ents w r),
                 upd r (\<lambda>e. e\<lparr>relativePos := pos e,
                               lastRelativePosCalculated := frameCounter (games w g)\<rparr>) w))
   \<and> (game (ents w r) = Some g
        \<and> lastRelativePosCalculated (ents w r) < frameCounter (games w g)
        \<and> parent (ents w r) = Some p
        \<and> calculateRelativePos m p w = Inr (v1, w2)
      \<longrightarrow> calculateRelativePos (Suc m) r w =
            Inr (add (pos (ents w r)) v1,
                 upd r (\<lambda>e. e\<lparr>relativePos := add (pos (ents w r)) v1,
                               lastRelativePosCalculated := frameCounter (games w g)\<rparr>) w2))"
proof (intro conjI impI)
  assume "relativeLeft n r w = Inr (a, w1)"
  then obtain v where c: "calculateRelativePos n r w = Inr (v, w1)" and a: "a = vx v"
    by (auto simp: bindE_eq_Inr)
  show "relativeLeft (Suc m) r w1 = Inr (a, w1)"
    using calc_idempotent[OF c, of m] a by simp
next
  assume "game (ents w r) = Some g
        \<and> lastRelativePosCalculated (ents w r) = frameCounter (games w g)"
  then have "\<not> stale w r" by (simp add: stale_def)
  then show "relativeLeft (Suc m) r w = Inr (vx (relativePos (ents w r)), w)"
    by (simp add: calc_not_stale)
next
  assume "game (ents w r) = Some g
        \<and> lastRelativePosCalculated (ents w r) < frameCounter (games w g)
        \<and> parent (ents w r) = None"
  then show "calculateRelativePos (Suc m) r w =
            Inr (pos (ents w r),
                 upd r (\<lambda>e. e\<lparr>relativePos := pos e,
                               lastRelativePosCalculated := frameCounter (games w g)\<rparr>) w)"
    by (simp add: calc_stale_orphan)
next
  assume "game (ents w r) = Some g
        \<and> lastRelativePosCalculated (ents w r) < frameCounter (games w g)
        \<and> parent (ents w r) = Some p
        \<and> calculateRelativePos m p w = Inr (v1, w2)"
  then show "calculateRelativePos (Suc m) r w =
            Inr (add (pos (ents w r)) v1,
                 upd r (\<lambda>e. e\<lparr>relativePos := add (pos (ents w r)) v1,
                               lastRelativePosCalculated := frameCounter (games w g)\<rparr>) w2)"
    by (simp add: calc_stale_parent)
qed

theorem relative_position_cached_per_frame_witness:
  "relativeLeft 1 0 staged = Inr (0, warmed) \<and> relativeLeft 1 0 warmed = Inr (0, warmed)
   \<and> game (ents warmed 0) = Some 0
   \<and> lastRelativePosCalculated (ents warmed 0) = frameCounter (games warmed 0)
   \<and> relativeLeft 1 0 warmed = Inr (vx (relativePos (ents warmed 0)), warmed)
   \<and> createChildEntity 1 0 coasted = Inr (1, nursery)
   \<and> calculateRelativePos 1 0 nextFrame =
       Inr (Vector2D 5 0,
            upd 0 (\<lambda>e. e\<lparr>relativePos := pos e, lastRelativePosCalculated := 2\<rparr>) nextFrame)
   \<and> calculateRelativePos 2 1 nextFrame =
       Inr (Vector2D 5 0,
            upd 1 (\<lambda>e. e\<lparr>relativePos := Vector2D 5 0, lastRelativePosCalculated := 2\<rparr>)
              (upd 0 (\<lambda>e. e\<lparr>relativePos := pos e, lastRelativePosCalculated := 2\<rparr>) nextFrame))"
proof -
  have r1: "relativeLeft 1 0 staged = Inr (0, warmed)"
    by (simp add: calculateRelativePos.simps(2) warmed_def upd_def fun_eq_iff)
  have g2: "game (ents warmed 0) = Some 0
     \<and> lastRelativePosCalculated (ents warmed 0) = frameCounter (games warmed 0)"
    by (simp add: warmed_def)
  have g3: "game (ents nextFrame 0) = Some 0
        \<and> lastRelativePosCalculated (ents nextFrame 0) < frameCounter (games nextFrame 0)
        \<and> parent (ents nextFrame 0) = None"
    by simp
  have c3: "calculateRelativePos 1 0 nextFrame =
       Inr (Vector2D 5 0,
            upd 0 (\<lambda>e. e\<lparr>relativePos := pos e, lastRelativePosCalculated := 2\<rparr>) nextFrame)"
    using relative_position_cached_per_frame[of 0 0 nextFrame 0 nextFrame 0 0 0 "Vector2D 0 0" nextFrame] g3
    by (simp add: Vector2D_def)
  have g4: "game (ents nextFrame 1) = Some 0
        \<and> lastRelativePosCalculated (ents nextFrame 1) < frameCounter (games nextFrame 0)
        \<and> parent (ents nextFrame 1) = Some 0"
    by simp
  have c4: "calculateRelativePos 2 1 nextFrame =
       Inr (Vector2D 5 0,
            upd 1 (\<lambda>e. e\<lparr>relativePos := Vector2D 5 0, lastRelativePosCalculated := 2\<rparr>)
              (upd 0 (\<lambda>e. e\<lparr>relativePos := pos e, lastRelativePosCalculated := 2\<rparr>) nextFrame))"
    using relative_position_cached_per_frame[of 0 1 nextFrame 0 nextFrame 1 0 0 "Vector2D 5 0"
        "upd 0 (\<lambda>e. e\<lparr>relativePos := pos e, lastRelativePosCalculated := 2\<rparr>) nextFrame"] g4 c3
    by (simp add: Vector2D_def add_def numeral_2_eq_2)
  have cc: "createChildEntity 1 0 coasted = Inr (1, nursery)"
    by (simp add: createChildEntity_def nursery_def newEntity_def)
  show ?thesis
    using relative_position_cached_per_frame[of 1 0 staged 0 warmed 0 0 0 "Vector2D 0 0" staged] r1 g2 c3 c4 cc
      relative_position_cached_per_frame[of 0 0 warmed 0 warmed 0 0 0 "Vector2D 0 0" warmed]
    by simp
qed

subsection \<open>C7: self-detachment\<close>




subsection \<open>C8: expiry without a parent\<close>

text \<open>
  C8: the code raises. An entity without a parent, created at time 0 with
  \<open>timeToLive = 1\<close>, is updated at time 2: \<^verbatim>\<open>this._parent.detachChildEntity(this)\<close> reads a
  property of \<open>null\<close>, a \<^verbatim>\<open>TypeError\<close>, and the rest of the update does not run.
\<close>

theorem expired_orphan_update_raises:
  "parent (ents orphanExpired 0) = None \<and> timeToLive (ents orphanExpired 0) = Some 1
   \<and> creationTime (ents orphanExpired 0) = 0 \<and> clock orphanExpired = 2
   \<and> updateEntity 1 noUpdateHooks 1 0 (orphanExpired, []) = Inl TypeError"
  by (simp add: orphanExpired_def newEntity_def emptyWorld_def updateEntity_Suc tickSelf_def expire_def)

subsection \<open>C9: the tree shape under attach and detach\<close>

text \<open>
  C9, as stated, fails. Entity 2 is added to entity 0 and then to entity 1:
  \<^verbatim>\<open>addChildEntity\<close> does not remove it from the children of entity 0, so it is in both
  arrays. Entity 0 added to itself is its own child, a cycle.
\<close>

theorem second_parent_breaks_tree:
  "tree_shaped trio
   \<and> addChildEntity 1 0 2 trio = Inr (2, adopted) \<and> tree_shaped adopted
   \<and> addChildEntity 1 1 2 adopted = Inr (2, shared)
   \<and> children (ents shared 0) = [2] \<and> children (ents shared 1) = [2]
   \<and> \<not> tree_shaped shared
   \<and> addChildEntity 1 0 0 trio = Inr (0, looped) \<and> children (ents looped 0) = [0]
   \<and> \<not> tree_shaped looped"
proof -
  have t: "tree_shaped trio"
    by (rule tree_shaped_no_children) simp
  have a: "addChildEntity 1 0 2 trio = Inr (2, adopted)"
    using addChildEntity_leaf[of trio 2 0 0] by (simp add: adopted_def)
  have f: "\<forall>q. 2 \<notin> set (children (ents trio q))" by simp
  have e: "edges trio = {}" by (simp add: edges_def)
  have n: "(2, 0) \<notin> (edges trio)\<^sup>*" by (simp add: e)
  have ta: "tree_shaped adopted"
    by (rule tree_shaped_add[OF t f n a])
  have c2: "children (ents adopted 2) = []" by (simp add: adopted_def)
  have b: "addChildEntity 1 1 2 adopted = Inr (2, shared)"
    using addChildEntity_leaf[OF c2, of 0 1] by (simp add: shared_def adopted_def)
  have s: "children (ents shared 0) = [2]" "children (ents shared 1) = [2]"
    by (simp_all add: shared_def adopted_def)
  have ns: "\<not> tree_shaped shared"
  proof
    assume "tree_shaped shared"
    then have "2 \<in> set (children (ents shared 0)) \<and> 2 \<in> set (children (ents shared 1))
        \<longrightarrow> (0::nat) = 1"
      unfolding tree_shaped_def by blast
    with s show False by simp
  qed
  have l: "addChildEntity 1 0 0 trio = Inr (0, looped)"
    using addChildEntity_leaf[of trio 0 0 0] by (simp add: looped_def)
  have lc: "children (ents looped 0) = [0]" by (simp add: looped_def)
  have nl: "\<not> tree_shaped looped"
  proof
    assume "tree_shaped looped"
    then have "acyclic (edges looped)" by (simp add: tree_shaped_def)
    moreover have "(0, 0) \<in> edges looped" using lc by (simp add: edges_def)
    ultimately show False by (auto simp: acyclic_def)
  qed
  show ?thesis using t a ta b s ns l lc nl by simp
qed

text \<open>
  C9, amended: \<open>detachChildEntity\<close> and \<open>createChildEntity\<close> (on an allocated receiver,
  the new reference being in no children array) keep the structure tree-shaped: every
  entity in the children of at most one parent, and no cycle. \<open>addChildEntity\<close> keeps it
  when the child is in no children array and the receiver is not the child nor one of its
  descendants; the code neither detaches the child from a previous parent nor looks for a
  cycle. Adding a childless entity always returns.
\<close>

theorem tree_shape_preserved:
  assumes "tree_shaped w"
  shows "tree_shaped (snd (detachChildEntity p c w))
       \<and> (p < nxt w \<and> (\<forall>q. nxt w \<notin> set (children (ents w q)))
            \<longrightarrow> (\<exists>w'. createChildEntity (Suc n) p w = Inr (nxt w, w') \<and> tree_shaped w'))
       \<and> (\<forall>w'. (\<forall>q. c \<notin> set (children (ents w q))) \<and> (c, p) \<notin> (edges w)\<^sup>*
                \<and> addChildEntity n p c w = Inr (c, w')
              \<longrightarrow> tree_shaped w')
       \<and> (children (ents w c) = [] \<longrightarrow> (\<exists>w'. addChildEntity (Suc n) p c w = Inr (c, w')))"
proof (intro conjI impI allI)
  show "tree_shaped (snd (detachChildEntity p c w))"
    by (rule tree_shaped_detach[OF assms])
next
  assume a: "p < nxt w \<and> (\<forall>q. nxt w \<notin> set (children (ents w q)))"
  obtain w' where r: "createChildEntity (Suc n) p w = Inr (nxt w, w')"
    by (simp add: createChildEntity_Suc)
  from a have "tree_shaped w'"
    by (intro tree_shaped_create[OF assms _ _ r]) simp_all
  with r show "\<exists>w'. createChildEntity (Suc n) p w = Inr (nxt w, w') \<and> tree_shaped w'"
    by blast
next
  fix w'
  assume "(\<forall>q. c \<notin> set (children (ents w q))) \<and> (c, p) \<notin> (edges w)\<^sup>*
                \<and> addChildEntity n p c w = Inr (c, w')"
  then show "tree_shaped w'"
    by (intro tree_shaped_add[OF assms, of c p n c w']) simp_all
next
  assume "children (ents w c) = []"
  then show "\<exists>w'. addChildEntity (Suc n) p c w = Inr (c, w')"
    by (simp add: addChildEntity_leaf)
qed

theorem tree_shape_preserved_witness:
  "tree_shaped trio
   \<and> tree_shaped (snd (detachChildEntity 0 2 trio))
   \<and> (0 < nxt trio \<and> (\<exists>w'. createChildEntity 1 0 trio = Inr (3, w') \<and> tree_shaped w'))
   \<and> (2, 0) \<notin> (edges trio)\<^sup>*
   \<and> addChildEntity 1 0 2 trio = Inr (2, adopted) \<and> tree_shaped adopted"
proof -
  have t: "tree_shaped trio"
    by (rule tree_shaped_no_children) simp
  have a: "addChildEntity 1 0 2 trio = Inr (2, adopted)"
    using addChildEntity_leaf[of trio 2 0 0] by (simp add: adopted_def)
  have e: "edges trio = {}" by (simp add: edges_def)
  have n: "(2, 0) \<notin> (edges trio)\<^sup>*" by (simp add: e)
  show ?thesis
    using tree_shape_preserved[OF t, of 0 2 0] tree_shape_preserved[OF t, of 0 2 1] t a n by simp
qed

subsection \<open>C10: the render counter\<close>

text \<open>
  C10: for every entity whose \<open>display\<close> is truthy and whose render hook returns a truthy
  value, \<open>renderEntity\<close> raises a \<^verbatim>\<open>TypeError\<close> when the entity has no scene context; with a
  scene context it adds exactly one to that context's render counter, touches nothing
  else, and then walks the children from that world. For an entity without children
  that world is the result.
\<close>

theorem render_counts_once:
  assumes "truthy (display (ents w r))" and "render (ents w r) = Some h"
    and "R h r w = (v, w1)" and "truthy v"
  shows "(game (ents w1 r) = None \<longrightarrow> renderEntity (Suc n) R r (w, lg) = Inl TypeError)
       \<and> (\<forall>g. game (ents w1 r) = Some g \<longrightarrow>
            (\<exists>w2. countRender r w1 = Inr w2
               \<and> lastFrameTotalRenders (games w2 g) = lastFrameTotalRenders (games w1 g) + 1
               \<and> frameCounter (games w2 g) = frameCounter (games w1 g)
               \<and> (\<forall>g'. g' \<noteq> g \<longrightarrow> games w2 g' = games w1 g')
               \<and> ents w2 = ents w1
               \<and> renderEntity (Suc n) R r (w, lg) =
                   forEach (renderEntity n R) (\<lambda>s. children (ents (fst s) r))
                     (w2, lg @ [Render r, RenderHook r])
               \<and> (children (ents w1 r) = [] \<longrightarrow>
                   renderEntity (Suc n) R r (w, lg) = Inr (w2, lg @ [Render r, RenderHook r]))))"
proof -
  have c: "callRender R r w = (v, w1, [RenderHook r])"
    using assms by (simp add: callRender_def)
  show ?thesis
    unfolding renderEntity_Suc c using assms(4)
    by (auto simp: countRender_def)
qed

theorem render_counts_once_witness:
  "truthy (display (ents drawn 0)) \<and> render (ents drawn 0) = Some 0
   \<and> alwaysDrawn 0 0 drawn = (JBool True, drawn) \<and> game (ents drawn 0) = Some 0
   \<and> lastFrameTotalRenders (games drawn 0) = 0
   \<and> (\<exists>w2. renderEntity 1 alwaysDrawn 0 (drawn, []) = Inr (w2, [Render 0, RenderHook 0])
          \<and> lastFrameTotalRenders (games w2 0) = 1)
   \<and> truthy (display (ents sketch 0)) \<and> render (ents sketch 0) = Some 0
   \<and> alwaysDrawn 0 0 sketch = (JBool True, sketch) \<and> game (ents sketch 0) = None
   \<and> renderEntity 1 alwaysDrawn 0 (sketch, []) = Inl TypeError"
proof -
  have d: "truthy (display (ents drawn 0))" "render (ents drawn 0) = Some 0"
    "alwaysDrawn 0 0 drawn = (JBool True, drawn)" "truthy (JBool True)"
    by (simp_all add: drawn_def alwaysDrawn_def)
  have d': "game (ents drawn 0) = Some 0" "lastFrameTotalRenders (games drawn 0) = 0"
    "children (ents drawn 0) = []"
    by (simp_all add: drawn_def)
  have k: "truthy (display (ents sketch 0))" "render (ents sketch 0) = Some 0"
    "alwaysDrawn 0 0 sketch = (JBool True, sketch)" "truthy (JBool True)"
    by (simp_all add: sketch_def alwaysDrawn_def)
  have k': "game (ents sketch 0) = None" by (simp add: sketch_def)
  show ?thesis
    using render_counts_once[of drawn 0 0 alwaysDrawn "JBool True" drawn 0 "[]"]
      render_counts_once[of sketch 0 0 alwaysDrawn "JBool True" sketch 0 "[]"] d d' k k'
    by auto
qed

end
